theory Spec2Isabelle
  imports Complex_Main
begin

section \<open>Natural Disaster Distance Monitor: the geospatial proximity engine\<close>

text \<open>
  A shallow embedding of \<^verbatim>\<open>disasters/utils.py\<close>, \<^verbatim>\<open>disasters/hurricanes.py\<close> and
  \<^verbatim>\<open>disasters/wildfires.py\<close>. Python floats are modelled by the reals: comparisons and
  arithmetic are exact, and the literals \<^verbatim>\<open>1e-9\<close> and \<^verbatim>\<open>1e-12\<close> are the rationals
  \<open>1 / 10 ^ 9\<close> and \<open>1 / 10 ^ 12\<close>. The values \<^verbatim>\<open>float('inf')\<close> and NaN are
  constructors of the type of distances, and NaN, which pandas puts in a null cell of a
  numeric column, is a constructor of the type of cells; query points, radii and ring
  vertices are finite floats. A raised exception is the left injection of a sum type.
\<close>

subsection \<open>Exceptions\<close>

datatype error = ValueError | IndexError

subsection \<open>Distance calculations\<close>

definition EARTH_RADIUS_MILES :: real where
  "EARTH_RADIUS_MILES = 3956"

definition radians :: "real \<Rightarrow> real" where
  "radians d = d * pi / 180"

text \<open>
  \<^verbatim>\<open>haversine\<close> uses the \<^verbatim>\<open>math\<close> module: \<^verbatim>\<open>math.sqrt\<close> raises ValueError on a
  negative argument and \<^verbatim>\<open>math.asin\<close> raises ValueError outside \<open>[-1, 1]\<close>
  (the square root is never below \<open>-1\<close>).
\<close>

definition haversine :: "real \<Rightarrow> real \<Rightarrow> real \<Rightarrow> real \<Rightarrow> error + real" where
  "haversine lon1 lat1 lon2 lat2 =
     (let lon1 = radians lon1; lat1 = radians lat1;
          lon2 = radians lon2; lat2 = radians lat2;
          dlon = lon2 - lon1;
          dlat = lat2 - lat1;
          a = (sin (dlat / 2))\<^sup>2 + cos lat1 * cos lat2 * (sin (dlon / 2))\<^sup>2
      in if a < 0 then Inl ValueError
         else if 1 < sqrt a then Inl ValueError
         else Inr (EARTH_RADIUS_MILES * (2 * arcsin (sqrt a))))"

text \<open>
  \<^verbatim>\<open>haversine_vectorized\<close> is called with a scalar origin and two parallel arrays of
  target coordinates, which NumPy broadcasts against each other; \<^verbatim>\<open>zip\<close> pairs the
  targets. \<^verbatim>\<open>np.sqrt\<close> and \<^verbatim>\<open>np.arcsin\<close> do not raise; lemma \<open>haversine_domain\<close> below
  shows that their arguments are always inside their domains.
\<close>

definition haversine_vectorized :: "real \<Rightarrow> real \<Rightarrow> real list \<Rightarrow> real list \<Rightarrow> real list" where
  "haversine_vectorized lon1 lat1 lon2 lat2 =
     map (\<lambda>(lon2, lat2).
            let lon1 = radians lon1; lat1 = radians lat1;
                lon2 = radians lon2; lat2 = radians lat2;
                dlon = lon2 - lon1;
                dlat = lat2 - lat1;
                a = (sin (dlat / 2))\<^sup>2 + cos lat1 * cos lat2 * (sin (dlon / 2))\<^sup>2;
                c = 2 * arcsin (sqrt a)
            in EARTH_RADIUS_MILES * c)
         (zip lon2 lat2)"

subsection \<open>Polygon operations\<close>

text \<open>A vertex or a query point is a pair \<open>(x, y)\<close>: longitude first, latitude second.\<close>

type_synonym point = "real \<times> real"

text \<open>\<^verbatim>\<open>np.min(polygon, axis=0)\<close> and \<^verbatim>\<open>np.max(polygon, axis=0)\<close>: the column-wise
  extremes; a reduction of an empty array raises ValueError.\<close>

fun np_min_axis0 :: "point list \<Rightarrow> error + point" where
  "np_min_axis0 [] = Inl ValueError"
| "np_min_axis0 (p # ps) = Inr (fold min (map fst ps) (fst p), fold min (map snd ps) (snd p))"

fun np_max_axis0 :: "point list \<Rightarrow> error + point" where
  "np_max_axis0 [] = Inl ValueError"
| "np_max_axis0 (p # ps) = Inr (fold max (map fst ps) (fst p), fold max (map snd ps) (snd p))"

text \<open>\<^verbatim>\<open>np.min\<close> of a one-dimensional array.\<close>

fun np_min :: "real list \<Rightarrow> error + real" where
  "np_min [] = Inl ValueError"
| "np_min (d # ds) = Inr (fold min ds d)"

text \<open>
  The body of the loop \<^verbatim>\<open>for i in range(n)\<close> of \<^verbatim>\<open>is_point_in_polygon_vectorized\<close>,
  for one query point \<open>(x, y)\<close> of the batch; \<open>inside\<close> is that point's entry of
  \<^verbatim>\<open>inside_or_on_edge_bbox\<close>. The last line is the masked update
  \<^verbatim>\<open>inside_or_on_edge_bbox[mask] ^= intersect[mask]\<close>.
\<close>

definition edge_step :: "real \<Rightarrow> real \<Rightarrow> point list \<Rightarrow> nat \<Rightarrow> bool \<Rightarrow> bool" where
  "edge_step x y polygon i inside =
     (let n = length polygon;
          j = (i + 1) mod n;
          (xi, yi) = polygon ! i;
          (xj, yj) = polygon ! j;
          on_vertex = (\<bar>x - xi\<bar> < 1 / 10 ^ 9 \<and> \<bar>y - yi\<bar> < 1 / 10 ^ 9);
          inside = (inside \<or> on_vertex);
          edge_x = xj - xi;
          edge_y = yj - yi;
          edge_length_sq = edge_x\<^sup>2 + edge_y\<^sup>2;
          inside =
            (if edge_length_sq > 0 then
               (let t = ((x - xi) * edge_x + (y - yi) * edge_y) / edge_length_sq;
                    px = xi + t * edge_x;
                    py = yi + t * edge_y;
                    distance_sq = (x - px)\<^sup>2 + (y - py)\<^sup>2;
                    tolerance = 1 / 10 ^ 12;
                    edge_check = (distance_sq < tolerance \<and> t \<ge> 0 \<and> t \<le> 1)
                in inside \<or> edge_check)
             else inside);
          mask = (\<not> inside \<and> yi \<noteq> yj);
          yj_gt_yi = (yj > yi);
          intersect = (mask \<and>
             ((yi \<le> y \<and> y < yj \<and> yj_gt_yi) \<or> (yj \<le> y \<and> y < yi \<and> \<not> yj_gt_yi)));
          slope = edge_x / edge_y;
          intersect = (intersect \<and> x < xi + (y - yi) * slope)
      in if mask then (inside \<noteq> intersect) else inside)"

text \<open>The whole loop over the edges, for one query point, from the initial \<open>False\<close>.\<close>

definition edge_loop :: "real \<Rightarrow> real \<Rightarrow> point list \<Rightarrow> bool" where
  "edge_loop x y polygon = fold (edge_step x y polygon) [0..<length polygon] False"

text \<open>
  \<^verbatim>\<open>inside_or_on_edge[bbox_check] = inside_or_on_edge_bbox\<close>: the results of the points
  inside the bounding box are written back at their positions of the all-False array.
\<close>

fun assign_masked :: "bool list \<Rightarrow> bool list \<Rightarrow> bool list" where
  "assign_masked [] vs = []"
| "assign_masked (False # ms) vs = False # assign_masked ms vs"
| "assign_masked (True # ms) [] = False # assign_masked ms []"
| "assign_masked (True # ms) (v # vs) = v # assign_masked ms vs"

text \<open>
  The batch of query points is the list of the pairs \<open>(x[k], y[k])\<close> of the two parallel
  arrays \<^verbatim>\<open>x\<close> and \<^verbatim>\<open>y\<close>.
\<close>

definition is_point_in_polygon_vectorized :: "point list \<Rightarrow> point list \<Rightarrow> error + bool list" where
  "is_point_in_polygon_vectorized pts polygon =
     (let inside_or_on_edge = replicate (length pts) False in
      if length pts = 0 then Inr inside_or_on_edge
      else
        (case np_min_axis0 polygon of
           Inl e \<Rightarrow> Inl e
         | Inr (min_x, min_y) \<Rightarrow>
        (case np_max_axis0 polygon of
           Inl e \<Rightarrow> Inl e
         | Inr (max_x, max_y) \<Rightarrow>
             (let bbox_check =
                    map (\<lambda>(x, y). x \<ge> min_x \<and> x \<le> max_x \<and> y \<ge> min_y \<and> y \<le> max_y) pts;
                  pts_in_bbox = map fst (filter snd (zip pts bbox_check))
              in if length pts_in_bbox = 0 then Inr inside_or_on_edge
                 else
                   (let inside_or_on_edge_bbox =
                          map (\<lambda>(x, y). edge_loop x y polygon) pts_in_bbox
                    in Inr (assign_masked bbox_check inside_or_on_edge_bbox))))))"

text \<open>\<^verbatim>\<open>is_point_in_polygon\<close>: the wrapper for a single point, \<^verbatim>\<open>bool(result[0])\<close>.\<close>

definition is_point_in_polygon :: "real \<Rightarrow> real \<Rightarrow> point list \<Rightarrow> error + bool" where
  "is_point_in_polygon x y polygon =
     (case is_point_in_polygon_vectorized [(x, y)] polygon of
        Inl e \<Rightarrow> Inl e
      | Inr result \<Rightarrow> (case result of [] \<Rightarrow> Inl IndexError | r # _ \<Rightarrow> Inr r))"

subsection \<open>Floats of the tables, and distances\<close>

text \<open>
  A cell of a numeric column of a pandas table holds a float, and a null cell holds the
  float NaN. Where the table has no such column, \<^verbatim>\<open>.get\<close> returns \<^verbatim>\<open>None\<close> or the
  default it is given: a column is a \<open>cell option\<close>.
\<close>

datatype cell = Num real | NaN

text \<open>Python truthiness of what \<^verbatim>\<open>.get\<close> returns: \<^verbatim>\<open>None\<close> and \<^verbatim>\<open>0.0\<close> are false,
  every other float is true, NaN included.\<close>

fun truthy :: "cell option \<Rightarrow> bool" where
  "truthy None = False"
| "truthy (Some (Num v)) = (v \<noteq> 0)"
| "truthy (Some NaN) = True"

text \<open>The comparison \<^verbatim>\<open><\<close> of two floats of a table: false when one of them is NaN.\<close>

fun cell_less :: "cell \<Rightarrow> cell \<Rightarrow> bool" where
  "cell_less (Num a) (Num b) = (a < b)"
| "cell_less (Num a) NaN = False"
| "cell_less NaN b = False"

text \<open>\<^verbatim>\<open>int(v)\<close> of a float truncates towards zero and raises ValueError on NaN.\<close>

fun py_int :: "cell \<Rightarrow> error + int" where
  "py_int (Num v) = Inr (if 0 \<le> v then \<lfloor>v\<rfloor> else \<lceil>v\<rceil>)"
| "py_int NaN = Inl ValueError"

text \<open>
  A distance in miles is a float, \<^verbatim>\<open>float('inf')\<close> or NaN. The comparisons are
  Python's: infinity is above every float, and a comparison with NaN is false.
\<close>

datatype miles = Miles real | Infinity | NanMiles

instantiation miles :: ord
begin

fun less_eq_miles :: "miles \<Rightarrow> miles \<Rightarrow> bool" where
  "less_eq_miles (Miles a) (Miles b) = (a \<le> b)"
| "less_eq_miles (Miles a) Infinity = True"
| "less_eq_miles Infinity (Miles b) = False"
| "less_eq_miles Infinity Infinity = True"
| "less_eq_miles NanMiles b = False"
| "less_eq_miles (Miles a) NanMiles = False"
| "less_eq_miles Infinity NanMiles = False"

fun less_miles :: "miles \<Rightarrow> miles \<Rightarrow> bool" where
  "less_miles (Miles a) (Miles b) = (a < b)"
| "less_miles (Miles a) Infinity = True"
| "less_miles Infinity b = False"
| "less_miles NanMiles b = False"
| "less_miles (Miles a) NanMiles = False"

instance ..

end

subsection \<open>Hurricanes: distance to a forecast cone\<close>

text \<open>
  The rows of the two hurricane tables carry the storm's name and number. A row of the
  cone table has, of the columns the evaluator reads, \<open>geometry\<close>, \<open>LAT\<close> and \<open>LON\<close>.
  \<open>geometry\<close> is the parsed value of the column \<^verbatim>\<open>geometry\<close> (a JSON text written by
  \<^verbatim>\<open>fetch_active_hurricanes\<close>): \<open>None\<close> when the geometry is empty or has no key
  \<^verbatim>\<open>rings\<close>, otherwise the list of rings under that key.
\<close>

record storm_row =
  STORMNAME :: string
  STORMNUM :: int

record cone = storm_row +
  geometry :: "point list list option"
  LAT :: "cell option"
  LON :: "cell option"

text \<open>
  The body of the \<^verbatim>\<open>try\<close> block of \<^verbatim>\<open>_calculate_distance_to_cone\<close>. The test
  \<^verbatim>\<open>if cone_lat and cone_lon\<close> is Python truthiness. When it passes and a coordinate is
  NaN, every operation of \<^verbatim>\<open>haversine\<close> (\<^verbatim>\<open>math.radians\<close>, the arithmetic,
  \<^verbatim>\<open>math.sin\<close>, \<^verbatim>\<open>math.cos\<close>, \<^verbatim>\<open>math.sqrt\<close>, \<^verbatim>\<open>math.asin\<close>) returns NaN and none
  raises: the distance is NaN.
\<close>

definition calculate_distance_to_cone_try :: "real \<Rightarrow> real \<Rightarrow> cone \<Rightarrow> error + (miles \<times> bool)" where
  "calculate_distance_to_cone_try user_lat user_lon c =
     (case geometry c of
        None \<Rightarrow>
          (let cone_lat = LAT c; cone_lon = LON c in
           if truthy cone_lat \<and> truthy cone_lon then
             (case (cone_lon, cone_lat) of
                (Some (Num lon2), Some (Num lat2)) \<Rightarrow>
                  (case haversine user_lon user_lat lon2 lat2 of
                     Inl e \<Rightarrow> Inl e
                   | Inr distance \<Rightarrow> Inr (Miles distance, False))
              | _ \<Rightarrow> Inr (NanMiles, False))
           else Inr (Infinity, False))
      | Some rings \<Rightarrow>
          (case rings of
             [] \<Rightarrow> Inl IndexError
           | polygon # _ \<Rightarrow>
               (case is_point_in_polygon_vectorized [(user_lon, user_lat)] polygon of
                  Inl e \<Rightarrow> Inl e
                | Inr inside \<Rightarrow>
                    (case inside of
                       [] \<Rightarrow> Inl IndexError
                     | inside0 # _ \<Rightarrow>
                         if inside0 then Inr (Miles 0, True)
                         else
                           (case np_min (haversine_vectorized user_lon user_lat
                                           (map fst polygon) (map snd polygon)) of
                              Inl e \<Rightarrow> Inl e
                            | Inr min_distance \<Rightarrow> Inr (Miles min_distance, False))))))"

text \<open>\<^verbatim>\<open>except Exception\<close>: every exception becomes \<^verbatim>\<open>(float('inf'), False)\<close>.\<close>

definition calculate_distance_to_cone :: "real \<Rightarrow> real \<Rightarrow> cone \<Rightarrow> miles \<times> bool" where
  "calculate_distance_to_cone user_lat user_lon c =
     (case calculate_distance_to_cone_try user_lat user_lon c of
        Inl e \<Rightarrow> (Infinity, False)
      | Inr r \<Rightarrow> r)"

subsection \<open>Wildfires: distance to a fire perimeter\<close>

text \<open>
  A row of the fire table. \<open>geometry_rings\<close> is \<^verbatim>\<open>fire.get('geometry_rings', [])\<close>;
  the point of origin is read by \<^verbatim>\<open>_get_fire_centroid\<close> only.
\<close>

record fire =
  poly_IncidentName :: string
  geometry_rings :: "point list list"
  attr_POOLatitude :: "real option"
  attr_POOLongitude :: "real option"

text \<open>
  The loop \<^verbatim>\<open>for i, ring in enumerate(rings)\<close>; the state is
  \<open>(inside_outer, inside_hole, min_distance)\<close>. Python's \<^verbatim>\<open>min(a, b)\<close> returns \<open>b\<close> when
  \<^verbatim>\<open>b < a\<close> and \<open>a\<close> otherwise.
\<close>

fun fire_rings_loop ::
  "real \<Rightarrow> real \<Rightarrow> (nat \<times> point list) list \<Rightarrow> bool \<times> bool \<times> miles \<Rightarrow> error + (bool \<times> bool \<times> miles)" where
  "fire_rings_loop user_lat user_lon [] st = Inr st"
| "fire_rings_loop user_lat user_lon ((i, ring) # rest) (inside_outer, inside_hole, min_distance) =
     (if ring = [] then
        fire_rings_loop user_lat user_lon rest (inside_outer, inside_hole, min_distance)
      else if length ring < 3 then
        fire_rings_loop user_lat user_lon rest (inside_outer, inside_hole, min_distance)
      else
        (case is_point_in_polygon_vectorized [(user_lon, user_lat)] ring of
           Inl e \<Rightarrow> Inl e
         | Inr ring_inside \<Rightarrow>
             (case ring_inside of
                [] \<Rightarrow> Inl IndexError
              | ring_inside0 # _ \<Rightarrow>
                  (let inside_outer = (if ring_inside0 \<and> i = 0 then True else inside_outer);
                       inside_hole = (if ring_inside0 \<and> i \<noteq> 0 then True else inside_hole)
                   in case np_min (haversine_vectorized user_lon user_lat
                                     (map fst ring) (map snd ring)) of
                        Inl e \<Rightarrow> Inl e
                      | Inr ring_min_distance \<Rightarrow>
                          fire_rings_loop user_lat user_lon rest
                            (inside_outer, inside_hole,
                             if Miles ring_min_distance < min_distance
                             then Miles ring_min_distance else min_distance)))))"

definition calculate_distance_to_fire_try :: "real \<Rightarrow> real \<Rightarrow> fire \<Rightarrow> error + (miles \<times> bool)" where
  "calculate_distance_to_fire_try user_lat user_lon f =
     (let rings = geometry_rings f in
      if rings = [] then Inr (Infinity, False)
      else
        (case fire_rings_loop user_lat user_lon (enumerate 0 rings) (False, False, Infinity) of
           Inl e \<Rightarrow> Inl e
         | Inr (inside_outer, inside_hole, min_distance) \<Rightarrow>
             (let inside = (inside_outer \<and> \<not> inside_hole)
              in if inside then Inr (Miles 0, True) else Inr (min_distance, False))))"

definition calculate_distance_to_fire :: "real \<Rightarrow> real \<Rightarrow> fire \<Rightarrow> miles \<times> bool" where
  "calculate_distance_to_fire user_lat user_lon f =
     (case calculate_distance_to_fire_try user_lat user_lon f of
        Inl e \<Rightarrow> (Infinity, False)
      | Inr r \<Rightarrow> r)"

subsection \<open>Ranking the results\<close>

text \<open>
  The result classes, with the fields the engine fills from the evaluator; the other
  fields are presentation data copied from the rows.
\<close>

record disaster_result =
  name :: string
  distance_miles :: miles

record wildfire_result = disaster_result +
  inside_perimeter :: bool

record hurricane_result = disaster_result +
  inside_cone :: bool

text \<open>
  \<^verbatim>\<open>results.sort(key=lambda x: x.distance_miles)\<close>. Python's sort is stable and uses only
  \<^verbatim>\<open><\<close> on the keys. On keys without NaN that comparison is a total order and the
  result is the one stable arrangement, which insertion from the right computes. With a
  NaN key the comparisons are inconsistent and the order Python leaves depends on the
  internals of its sort: the model says \<open>None\<close> there.
\<close>

fun insort_miles :: "('a \<Rightarrow> miles) \<Rightarrow> 'a \<Rightarrow> 'a list \<Rightarrow> 'a list" where
  "insort_miles key x [] = [x]"
| "insort_miles key x (y # ys) =
     (if key x \<le> key y then x # y # ys else y # insort_miles key x ys)"

definition list_sort :: "('a \<Rightarrow> miles) \<Rightarrow> 'a list \<Rightarrow> 'a list option" where
  "list_sort key xs =
     (if list_ex (\<lambda>x. key x = NanMiles) xs then None
      else Some (foldr (insort_miles key) xs []))"

text \<open>
  \<^verbatim>\<open>get_wildfires_near_location\<close>, from the fetched rows on: the loop that appends to
  \<^verbatim>\<open>results\<close>, then the sort. Of the statements of the loop body's \<^verbatim>\<open>try\<close> block,
  the evaluator catches its own exceptions, the conversions \<^verbatim>\<open>float(acres)\<close> and
  \<^verbatim>\<open>float(containment)\<close> sit in \<^verbatim>\<open>try\<close> blocks of their own and \<^verbatim>\<open>_get_fire_centroid\<close>
  catches its own exceptions: the body does not raise.
\<close>

fun wildfires_loop :: "real \<Rightarrow> real \<Rightarrow> real \<Rightarrow> fire list \<Rightarrow> wildfire_result list \<Rightarrow> wildfire_result list" where
  "wildfires_loop lat lon radius_miles [] results = results"
| "wildfires_loop lat lon radius_miles (f # rest) results =
     (case calculate_distance_to_fire lat lon f of
        (distance, inside) \<Rightarrow>
          if distance > Miles radius_miles \<and> \<not> inside then
            wildfires_loop lat lon radius_miles rest results
          else
            wildfires_loop lat lon radius_miles rest
              (results @
                 [\<lparr>name = poly_IncidentName f,
                   distance_miles = (if inside then Miles 0 else distance),
                   inside_perimeter = inside\<rparr>]))"

definition get_wildfires_near_location ::
  "real \<Rightarrow> real \<Rightarrow> real \<Rightarrow> fire list \<Rightarrow> wildfire_result list option" where
  "get_wildfires_near_location lat lon radius_miles fires_df =
     list_sort distance_miles (wildfires_loop lat lon radius_miles fires_df [])"

text \<open>
  A row of the table of detailed forecast points, with the columns that decide which row
  is a storm's position and whether building the result raises.
\<close>

record detail = storm_row +
  TAU :: "cell option"
  SSNUM :: "cell option"

text \<open>\<^verbatim>\<open>row.get('TAU', 999)\<close>.\<close>

definition get_TAU :: "detail \<Rightarrow> cell" where
  "get_TAU row = (case TAU row of None \<Rightarrow> Num 999 | Some tau \<Rightarrow> tau)"

text \<open>The loop that fills the dictionary \<^verbatim>\<open>storm_positions\<close>: for each storm key the
  first row whose \<open>TAU\<close> no later row of the storm is below.\<close>

fun storm_positions_loop ::
  "detail list \<Rightarrow> (string \<times> int \<rightharpoonup> detail) \<Rightarrow> (string \<times> int \<rightharpoonup> detail)" where
  "storm_positions_loop [] storm_positions = storm_positions"
| "storm_positions_loop (row # rest) storm_positions =
     (let storm_key = (STORMNAME row, STORMNUM row);
          tau = get_TAU row
      in storm_positions_loop rest
           (case storm_positions storm_key of
              None \<Rightarrow> storm_positions(storm_key \<mapsto> row)
            | Some stored \<Rightarrow>
                if cell_less tau (get_TAU stored) then storm_positions(storm_key \<mapsto> row)
                else storm_positions))"

text \<open>
  Building the result object. \<^verbatim>\<open>ssnum = position_data.get('SSNUM')\<close> is \<^verbatim>\<open>None\<close> when
  the storm has no position row or the table no such column. Of the statements between
  \<^verbatim>\<open>processed_storms.add\<close> and \<^verbatim>\<open>results.append\<close>, \<^verbatim>\<open>int(ssnum)\<close> is the one that can
  raise on cells that are floats: \<^verbatim>\<open>float\<close> of a float does not, the dictionary lookups
  of the category do not, and \<^verbatim>\<open>_format_direction\<close> catches its own errors. The
  value is the argument of \<^verbatim>\<open>HurricaneCategory.from_ssnum\<close>, if there is one.
\<close>

definition ssnum_of_position :: "detail option \<Rightarrow> error + int option" where
  "ssnum_of_position position_data =
     (let ssnum = (case position_data of None \<Rightarrow> None | Some row \<Rightarrow> SSNUM row)
      in case ssnum of
           None \<Rightarrow> Inr None
         | Some v \<Rightarrow> (case py_int v of Inl e \<Rightarrow> Inl e | Inr n \<Rightarrow> Inr (Some n)))"

text \<open>
  The loop over the cone rows of \<^verbatim>\<open>get_hurricanes_near_location\<close>, with the set
  \<^verbatim>\<open>processed_storms\<close> of the storm keys already taken. The key is added before the
  result is built, and \<^verbatim>\<open>except Exception: continue\<close> drops a row whose result raises.
\<close>

fun hurricanes_loop ::
  "real \<Rightarrow> real \<Rightarrow> real \<Rightarrow> (string \<times> int \<rightharpoonup> detail) \<Rightarrow> cone list \<Rightarrow> (string \<times> int) set \<Rightarrow>
   hurricane_result list \<Rightarrow> hurricane_result list" where
  "hurricanes_loop lat lon radius_miles storm_positions [] processed_storms results = results"
| "hurricanes_loop lat lon radius_miles storm_positions (c # rest) processed_storms results =
     (let storm_key = (STORMNAME c, STORMNUM c) in
      if storm_key \<in> processed_storms then
        hurricanes_loop lat lon radius_miles storm_positions rest processed_storms results
      else
        (case calculate_distance_to_cone lat lon c of
           (distance, inside) \<Rightarrow>
             if distance > Miles radius_miles \<and> \<not> inside then
               hurricanes_loop lat lon radius_miles storm_positions rest processed_storms results
             else
               (case ssnum_of_position (storm_positions storm_key) of
                  Inl e \<Rightarrow>
                    hurricanes_loop lat lon radius_miles storm_positions rest
                      (insert storm_key processed_storms) results
                | Inr ssnum \<Rightarrow>
                    hurricanes_loop lat lon radius_miles storm_positions rest
                      (insert storm_key processed_storms)
                      (results @
                         [\<lparr>name = STORMNAME c,
                           distance_miles = (if inside then Miles 0 else distance),
                           inside_cone = inside\<rparr>]))))"

definition get_hurricanes_near_location ::
  "real \<Rightarrow> real \<Rightarrow> real \<Rightarrow> cone list \<Rightarrow> detail list \<Rightarrow> hurricane_result list option" where
  "get_hurricanes_near_location lat lon radius_miles cone_df detailed_df =
     (let storm_positions = storm_positions_loop detailed_df Map.empty
      in list_sort distance_miles
           (hurricanes_loop lat lon radius_miles storm_positions cone_df {} []))"

section \<open>Notions used in the statements\<close>

text \<open>The haversine term \<open>a\<close> of both distance functions, on arguments in radians.\<close>

definition haversine_a :: "real \<Rightarrow> real \<Rightarrow> real \<Rightarrow> real \<Rightarrow> real" where
  "haversine_a lon1 lat1 lon2 lat2 =
     (sin ((lat2 - lat1) / 2))\<^sup>2 + cos lat1 * cos lat2 * (sin ((lon2 - lon1) / 2))\<^sup>2"

text \<open>The end vertex of edge \<open>i\<close>: \<^verbatim>\<open>polygon[(i + 1) % n]\<close>.\<close>

definition next_vertex :: "point list \<Rightarrow> nat \<Rightarrow> point" where
  "next_vertex polygon i = polygon ! ((i + 1) mod length polygon)"

text \<open>Vertex coincidence: within \<^verbatim>\<open>1e-9\<close> degrees of the vertex on both axes.\<close>

definition on_vertex :: "real \<Rightarrow> real \<Rightarrow> point \<Rightarrow> bool" where
  "on_vertex x y v = (\<bar>x - fst v\<bar> < 1 / 10 ^ 9 \<and> \<bar>y - snd v\<bar> < 1 / 10 ^ 9)"

text \<open>Edge coincidence: the edge has positive length, the squared distance to the
  projection on its line is below \<^verbatim>\<open>1e-12\<close>, and the projection parameter is in
  \<open>[0, 1]\<close>.\<close>

definition on_edge :: "real \<Rightarrow> real \<Rightarrow> point \<Rightarrow> point \<Rightarrow> bool" where
  "on_edge x y vi vj =
     (let edge_x = fst vj - fst vi;
          edge_y = snd vj - snd vi;
          edge_length_sq = edge_x\<^sup>2 + edge_y\<^sup>2;
          t = ((x - fst vi) * edge_x + (y - snd vi) * edge_y) / edge_length_sq;
          px = fst vi + t * edge_x;
          py = snd vi + t * edge_y
      in edge_length_sq > 0 \<and> (x - px)\<^sup>2 + (y - py)\<^sup>2 < 1 / 10 ^ 12 \<and> 0 \<le> t \<and> t \<le> 1)"

text \<open>A ray crossing, in the words of the specification: the edge is not horizontal, its
  vertical span straddles the point's latitude, and the longitude where the ray meets the
  edge is strictly greater than the point's longitude.\<close>

definition crosses :: "real \<Rightarrow> real \<Rightarrow> point \<Rightarrow> point \<Rightarrow> bool" where
  "crosses x y vi vj =
     (snd vi \<noteq> snd vj \<and>
      min (snd vi) (snd vj) \<le> y \<and> y < max (snd vi) (snd vj) \<and>
      x < fst vi + (y - snd vi) * ((fst vj - fst vi) / (snd vj - snd vi)))"

text \<open>The point is flagged by the vertex or the edge coincidence check of some edge.\<close>

definition boundary_flagged :: "real \<Rightarrow> real \<Rightarrow> point list \<Rightarrow> bool" where
  "boundary_flagged x y polygon =
     list_ex (\<lambda>i. on_vertex x y (polygon ! i) \<or> on_edge x y (polygon ! i) (next_vertex polygon i))
       [0..<length polygon]"

text \<open>The number of ring edges the ray crosses.\<close>

definition ray_crossings :: "real \<Rightarrow> real \<Rightarrow> point list \<Rightarrow> nat" where
  "ray_crossings x y polygon =
     length (filter (\<lambda>i. crosses x y (polygon ! i) (next_vertex polygon i)) [0..<length polygon])"

text \<open>The point is inside the axis-aligned bounding box of the ring.\<close>

definition in_bbox :: "real \<Rightarrow> real \<Rightarrow> point list \<Rightarrow> bool" where
  "in_bbox x y polygon =
     (case (np_min_axis0 polygon, np_max_axis0 polygon) of
        (Inr (min_x, min_y), Inr (max_x, max_y)) \<Rightarrow>
          x \<ge> min_x \<and> x \<le> max_x \<and> y \<ge> min_y \<and> y \<le> max_y
      | _ \<Rightarrow> False)"

text \<open>The vertex, edge and ray-cast pipeline run on every point of the batch, without the
  bounding-box prefilter.\<close>

definition contains_without_prefilter :: "point list \<Rightarrow> point list \<Rightarrow> bool list" where
  "contains_without_prefilter pts polygon = map (\<lambda>(x, y). edge_loop x y polygon) pts"

text \<open>The haversine distances from the query point to the vertices of a ring, as both
  evaluators compute them.\<close>

definition vertex_distances :: "real \<Rightarrow> real \<Rightarrow> point list \<Rightarrow> real list" where
  "vertex_distances user_lon user_lat ring =
     haversine_vectorized user_lon user_lat (map fst ring) (map snd ring)"

text \<open>One round of the loop of \<^verbatim>\<open>_calculate_distance_to_fire\<close> on the minimum distance:
  a ring of fewer than three points is skipped.\<close>

definition ring_step :: "real \<Rightarrow> real \<Rightarrow> point list \<Rightarrow> miles \<Rightarrow> miles" where
  "ring_step user_lon user_lat ring m =
     (if 3 \<le> length ring then
        (if Miles (Min (set (vertex_distances user_lon user_lat ring))) < m
         then Miles (Min (set (vertex_distances user_lon user_lat ring))) else m)
      else m)"

text \<open>The ranker's test on an evaluator result \<open>(distance, contained)\<close>: contained, or
  within the radius.\<close>

definition retained :: "real \<Rightarrow> miles \<times> bool \<Rightarrow> bool" where
  "retained radius_miles r = (snd r \<or> fst r \<le> Miles radius_miles)"

text \<open>The result objects built from a row and its evaluator result.\<close>

definition wildfire_entry :: "real \<Rightarrow> real \<Rightarrow> fire \<Rightarrow> wildfire_result" where
  "wildfire_entry lat lon f =
     \<lparr>name = poly_IncidentName f,
      distance_miles = (if snd (calculate_distance_to_fire lat lon f) then Miles 0
                        else fst (calculate_distance_to_fire lat lon f)),
      inside_perimeter = snd (calculate_distance_to_fire lat lon f)\<rparr>"

definition hurricane_entry :: "real \<Rightarrow> real \<Rightarrow> cone \<Rightarrow> hurricane_result" where
  "hurricane_entry lat lon c =
     \<lparr>name = STORMNAME c,
      distance_miles = (if snd (calculate_distance_to_cone lat lon c) then Miles 0
                        else fst (calculate_distance_to_cone lat lon c)),
      inside_cone = snd (calculate_distance_to_cone lat lon c)\<rparr>"

text \<open>The key \<^verbatim>\<open>(STORMNAME, STORMNUM)\<close> of a cone row, and the rows of a list that are the
  first of their key.\<close>

definition storm_key :: "cone \<Rightarrow> string \<times> int" where
  "storm_key c = (STORMNAME c, STORMNUM c)"

fun first_per_storm :: "cone list \<Rightarrow> cone list" where
  "first_per_storm [] = []"
| "first_per_storm (c # cs) = c # first_per_storm (filter (\<lambda>d. storm_key d \<noteq> storm_key c) cs)"

section \<open>The distance functions\<close>

lemma unit_pairs_bound:
  fixes p q r s u :: real
  assumes "p\<^sup>2 + q\<^sup>2 = 1" "r\<^sup>2 + s\<^sup>2 = 1" "\<bar>u\<bar> \<le> 1"
  shows "\<bar>p * r + u * (q * s)\<bar> \<le> 1"
proof -
  have "\<bar>p * r + u * (q * s)\<bar> \<le> \<bar>p * r\<bar> + \<bar>u * (q * s)\<bar>" by (rule abs_triangle_ineq)
  also have "\<bar>u * (q * s)\<bar> \<le> \<bar>q * s\<bar>"
    using assms(3) by (simp add: abs_mult mult_left_le_one_le)
  also have "\<bar>p * r\<bar> + \<bar>q * s\<bar> \<le> (p\<^sup>2 + r\<^sup>2) / 2 + (q\<^sup>2 + s\<^sup>2) / 2"
  proof -
    have "0 \<le> (\<bar>p\<bar> - \<bar>r\<bar>)\<^sup>2" "0 \<le> (\<bar>q\<bar> - \<bar>s\<bar>)\<^sup>2" by simp_all
    then show ?thesis by (simp add: power2_diff abs_mult field_simps)
  qed
  also have "\<dots> = 1" using assms(1,2) by (simp add: field_simps)
  finally show ?thesis by simp
qed

lemma sin_half_squared: "(sin (x / 2))\<^sup>2 = (1 - cos x) / (2::real)"
  using cos_double_sin [of "x / 2"] by simp

lemma haversine_a_alt:
  "haversine_a lon1 lat1 lon2 lat2 =
     (1 - (sin lat1 * sin lat2 + cos (lon2 - lon1) * (cos lat1 * cos lat2))) / 2"
  by (simp add: haversine_a_def sin_half_squared cos_diff field_simps)

text \<open>The argument of the square root is never negative and the argument of the arc sine
  never exceeds one, whatever the coordinates: neither \<^verbatim>\<open>math.sqrt\<close> nor \<^verbatim>\<open>math.asin\<close>
  raises, and NumPy's versions never see a value outside their domains.\<close>

lemma haversine_domain:
  "0 \<le> haversine_a lon1 lat1 lon2 lat2 \<and> haversine_a lon1 lat1 lon2 lat2 \<le> 1"
proof -
  have "\<bar>sin lat1 * sin lat2 + cos (lon2 - lon1) * (cos lat1 * cos lat2)\<bar> \<le> 1"
    by (rule unit_pairs_bound) simp_all
  then show ?thesis unfolding haversine_a_alt by (simp add: abs_le_iff)
qed

lemma haversine_total:
  "haversine lon1 lat1 lon2 lat2 =
     Inr (EARTH_RADIUS_MILES * (2 * arcsin (sqrt
       (haversine_a (radians lon1) (radians lat1) (radians lon2) (radians lat2)))))"
proof -
  let ?a = "haversine_a (radians lon1) (radians lat1) (radians lon2) (radians lat2)"
  have "0 \<le> ?a" "?a \<le> 1" using haversine_domain by blast+
  then have "\<not> ?a < 0" "\<not> 1 < sqrt ?a" by (simp_all add: not_less)
  then show ?thesis
    unfolding haversine_def Let_def haversine_a_def by simp
qed

lemma haversine_vectorized_nth:
  assumes "i < length lons" "length lats = length lons"
  shows "haversine_vectorized lon1 lat1 lons lats ! i =
     EARTH_RADIUS_MILES * (2 * arcsin (sqrt
       (haversine_a (radians lon1) (radians lat1) (radians (lons ! i)) (radians (lats ! i)))))"
  using assms by (simp add: haversine_vectorized_def haversine_a_def Let_def)

text \<open>
  Claim C9. For every origin and every sequence of targets (two parallel arrays of
  longitudes and latitudes), the batched distance function returns one distance per
  target, and its entry at index \<open>i\<close> is the value the scalar function returns for the
  origin and target \<open>i\<close>; the scalar function raises on no input.
\<close>

theorem haversine_vectorized_agrees:
  assumes "i < length lons" "length lats = length lons"
  shows "length (haversine_vectorized lon1 lat1 lons lats) = length lons \<and>
         haversine lon1 lat1 (lons ! i) (lats ! i) =
           Inr (haversine_vectorized lon1 lat1 lons lats ! i)"
  using assms
  by (simp add: haversine_total haversine_vectorized_nth) (simp add: haversine_vectorized_def)

theorem haversine_vectorized_agrees_witness:
  "length (haversine_vectorized (-95) 30 [-90, -80] [25, 35]) = 2 \<and>
   haversine (-95) 30 (-80) 35 = Inr (haversine_vectorized (-95) 30 [-90, -80] [25, 35] ! 1)"
  using haversine_vectorized_agrees [of 1 "[-90, -80]" "[25, 35]" "-95" 30] by simp

section \<open>The forecast-cone evaluator\<close>

text \<open>
  Claim C10. A cone row without ring geometry whose fallback coordinate has latitude
  exactly 0 or longitude exactly 0 is treated as a row without fallback point: for every
  query point the evaluator returns distance infinity and contained false, because
  the presence test is numeric truthiness. (The other coordinate is any cell, a float or
  NaN.)
\<close>

theorem cone_zero_coordinate_is_no_fallback:
  assumes "geometry c = None" "LAT c = Some cone_lat" "LON c = Some cone_lon"
    and "cone_lat = Num 0 \<or> cone_lon = Num 0"
  shows "calculate_distance_to_cone user_lat user_lon c = (Infinity, False)"
  using assms
  by (auto simp add: calculate_distance_to_cone_def calculate_distance_to_cone_try_def)

theorem cone_zero_coordinate_is_no_fallback_witness:
  "calculate_distance_to_cone 30 (-95)
     \<lparr>STORMNAME = ''ANA'', STORMNUM = 1, geometry = None,
      LAT = Some (Num 0), LON = Some (Num (-40))\<rparr>
   = (Infinity, False)"
  using cone_zero_coordinate_is_no_fallback
    [of "\<lparr>STORMNAME = ''ANA'', STORMNUM = 1, geometry = None,
          LAT = Some (Num 0), LON = Some (Num (-40))\<rparr>"
        "Num 0" "Num (-40)" 30 "-95"]
  by simp

section \<open>The containment test\<close>

lemma step_logic:
  "(if \<not> (if Lp then (a \<or> ov) \<or> ec else (a \<or> ov)) \<and> ne
    then (if Lp then (a \<or> ov) \<or> ec else (a \<or> ov)) \<noteq>
           (((\<not> (if Lp then (a \<or> ov) \<or> ec else (a \<or> ov)) \<and> ne) \<and> S) \<and> X)
    else (if Lp then (a \<or> ov) \<or> ec else (a \<or> ov)))
   = (a \<or> ov \<or> (Lp \<and> ec) \<or> (ne \<and> S \<and> X))"
  by auto

lemma straddle_iff:
  fixes y yi yj :: real
  shows "(yi \<noteq> yj \<and> ((yi \<le> y \<and> y < yj \<and> yi < yj) \<or> (yj \<le> y \<and> y < yi \<and> \<not> yi < yj)) \<and> X)
       = (yi \<noteq> yj \<and> min yi yj \<le> y \<and> y < max yi yj \<and> X)"
  by (auto simp add: min_def max_def)

lemma edge_step_sticky:
  "edge_step x y polygon i inside =
     (inside \<or> on_vertex x y (polygon ! i) \<or> on_edge x y (polygon ! i) (next_vertex polygon i)
        \<or> crosses x y (polygon ! i) (next_vertex polygon i))"
proof -
  obtain xi yi where vi: "polygon ! i = (xi, yi)" by (cases "polygon ! i")
  obtain xj yj where vj: "polygon ! ((i + 1) mod length polygon) = (xj, yj)"
    by (cases "polygon ! ((i + 1) mod length polygon)")
  show ?thesis
    unfolding edge_step_def on_vertex_def on_edge_def crosses_def next_vertex_def Let_def
    by (simp only: vi vj prod.case fst_conv snd_conv step_logic straddle_iff)
qed

lemma fold_edge_step:
  "fold (edge_step x y polygon) is b =
     (b \<or> list_ex (\<lambda>i. on_vertex x y (polygon ! i) \<or> on_edge x y (polygon ! i) (next_vertex polygon i)
        \<or> crosses x y (polygon ! i) (next_vertex polygon i)) is)"
  by (induction "is" arbitrary: b) (auto simp add: edge_step_sticky)

lemma edge_loop_iff:
  "edge_loop x y polygon = (boundary_flagged x y polygon \<or> 0 < ray_crossings x y polygon)"
  unfolding edge_loop_def fold_edge_step boundary_flagged_def ray_crossings_def
  by (auto simp add: list_ex_iff filter_empty_conv)

lemma assign_masked_filter:
  "assign_masked (map P pts) (map f (filter P pts)) = map (\<lambda>p. P p \<and> f p) pts"
  by (induction pts) auto

lemma zip_filter_snd: "map fst (filter snd (zip pts (map P pts))) = filter P pts"
  by (induction pts) auto

lemma vectorized_nonempty:
  assumes "polygon \<noteq> []"
  shows "is_point_in_polygon_vectorized pts polygon =
           Inr (map (\<lambda>(x, y). in_bbox x y polygon \<and> edge_loop x y polygon) pts)"
proof -
  obtain p ps where pg: "polygon = p # ps" using assms by (cases polygon) auto
  define P where "P = (\<lambda>(x, y). in_bbox x y polygon)"
  define f where "f = (\<lambda>(x, y). edge_loop x y polygon)"
  have bb: "(\<lambda>(x, y). x \<ge> fold min (map fst ps) (fst p) \<and> x \<le> fold max (map fst ps) (fst p)
                 \<and> y \<ge> fold min (map snd ps) (snd p) \<and> y \<le> fold max (map snd ps) (snd p)) = P"
    by (simp add: P_def in_bbox_def pg)
  have e: "filter P pts = [] \<Longrightarrow> replicate (length pts) False = map (\<lambda>p. P p \<and> f p) pts"
    by (induction pts) (auto split: if_splits)
  have "is_point_in_polygon_vectorized pts polygon =
          (if length pts = 0 then Inr (replicate (length pts) False)
           else if length (filter P pts) = 0 then Inr (replicate (length pts) False)
           else Inr (assign_masked (map P pts) (map f (filter P pts))))"
    unfolding is_point_in_polygon_vectorized_def Let_def pg np_min_axis0.simps np_max_axis0.simps
      sum.case prod.case bb zip_filter_snd f_def
    by (simp add: pg)
  also have "\<dots> = Inr (map (\<lambda>p. P p \<and> f p) pts)"
    using e by (simp add: assign_masked_filter)
  also have "map (\<lambda>p. P p \<and> f p) pts = map (\<lambda>(x, y). in_bbox x y polygon \<and> edge_loop x y polygon) pts"
    by (simp add: P_def f_def case_prod_unfold)
  finally show ?thesis .
qed

lemma vectorized_empty_ring:
  "is_point_in_polygon_vectorized pts [] = (if pts = [] then Inr [] else Inl ValueError)"
  by (simp add: is_point_in_polygon_vectorized_def)

lemma single_nonempty:
  "polygon \<noteq> [] \<Longrightarrow> is_point_in_polygon x y polygon = Inr (in_bbox x y polygon \<and> edge_loop x y polygon)"
  by (simp add: is_point_in_polygon_def vectorized_nonempty)

lemma fold_min_Min: "fold min xs (a::real) = Min (set (a # xs))"
  by (simp only: Min.set_eq_fold)

lemma fold_max_Max: "fold max xs (a::real) = Max (set (a # xs))"
  by (simp only: Max.set_eq_fold)

lemma in_bbox_iff:
  assumes "polygon \<noteq> []"
  shows "in_bbox x y polygon =
     (Min (fst ` set polygon) \<le> x \<and> x \<le> Max (fst ` set polygon) \<and>
      Min (snd ` set polygon) \<le> y \<and> y \<le> Max (snd ` set polygon))"
proof -
  obtain p ps where r: "polygon = p # ps" using assms by (cases polygon) auto
  show ?thesis
    by (simp add: in_bbox_def r fold_min_Min fold_max_Max del: Min_insert Max_insert) 
qed

lemma convex_bounds:
  fixes a b t lo hi :: real
  assumes "lo \<le> a" "lo \<le> b" "a \<le> hi" "b \<le> hi" "0 \<le> t" "t \<le> 1"
  shows "lo \<le> a + t * (b - a) \<and> a + t * (b - a) \<le> hi"
proof -
  have e: "a + t * (b - a) = (1 - t) * a + t * b" by (simp add: algebra_simps)
  have "(1 - t) * lo \<le> (1 - t) * a" "t * lo \<le> t * b" "(1 - t) * a \<le> (1 - t) * hi" "t * b \<le> t * hi"
    using assms by (simp_all add: mult_left_mono)
  moreover have "(1 - t) * lo + t * lo = lo" "(1 - t) * hi + t * hi = hi" by (simp_all add: algebra_simps)
  ultimately show ?thesis unfolding e by linarith
qed

lemma in_bbox_segment:
  assumes "v \<in> set polygon" "w \<in> set polygon" "0 \<le> t" "t \<le> 1"
  shows "in_bbox (fst v + t * (fst w - fst v)) (snd v + t * (snd w - snd v)) polygon"
proof -
  have ne: "polygon \<noteq> []" using assms(1) by auto
  have "Min (fst ` set polygon) \<le> fst v" "Min (fst ` set polygon) \<le> fst w"
       "fst v \<le> Max (fst ` set polygon)" "fst w \<le> Max (fst ` set polygon)"
       "Min (snd ` set polygon) \<le> snd v" "Min (snd ` set polygon) \<le> snd w"
       "snd v \<le> Max (snd ` set polygon)" "snd w \<le> Max (snd ` set polygon)"
    using assms(1,2) by simp_all
  then show ?thesis
    unfolding in_bbox_iff [OF ne] using convex_bounds assms(3,4) by blast
qed

lemma segment_point_hit:
  fixes xi yi xj yj t :: real
  assumes "0 \<le> t" "t \<le> 1"
  shows "on_vertex (xi + t * (xj - xi)) (yi + t * (yj - yi)) (xi, yi) \<or>
         on_edge (xi + t * (xj - xi)) (yi + t * (yj - yi)) (xi, yi) (xj, yj)"
proof (cases "0 < (xj - xi)\<^sup>2 + (yj - yi)\<^sup>2")
  case True
  define L where "L = (xj - xi)\<^sup>2 + (yj - yi)\<^sup>2"
  have L: "0 < L" using True by (simp add: L_def)
  then have L0: "L \<noteq> 0" by simp
  have "(t * (xj - xi)) * (xj - xi) + (t * (yj - yi)) * (yj - yi) = t * L"
    by (simp add: L_def power2_eq_square algebra_simps)
  then have t: "((t * (xj - xi)) * (xj - xi) + (t * (yj - yi)) * (yj - yi)) / L = t"
    using L0 by simp
  have "on_edge (xi + t * (xj - xi)) (yi + t * (yj - yi)) (xi, yi) (xj, yj)"
    unfolding on_edge_def Let_def fst_conv snd_conv add_diff_cancel_left' L_def [symmetric] t
    using L assms by simp
  then show ?thesis ..
next
  case False
  have "0 \<le> (xj - xi)\<^sup>2" "0 \<le> (yj - yi)\<^sup>2" by simp_all
  with False have "(xj - xi)\<^sup>2 = 0" "(yj - yi)\<^sup>2 = 0" by linarith+
  then have "xj - xi = 0" "yj - yi = 0" by simp_all
  then have "on_vertex (xi + t * (xj - xi)) (yi + t * (yj - yi)) (xi, yi)"
    by (simp add: on_vertex_def)
  then show ?thesis ..
qed

lemma edge_loop_segment:
  assumes "i < length ring" "0 \<le> t" "t \<le> 1"
  shows "edge_loop (fst (ring ! i) + t * (fst (next_vertex ring i) - fst (ring ! i)))
                   (snd (ring ! i) + t * (snd (next_vertex ring i) - snd (ring ! i))) ring"
proof -
  let ?x = "fst (ring ! i) + t * (fst (next_vertex ring i) - fst (ring ! i))"
  let ?y = "snd (ring ! i) + t * (snd (next_vertex ring i) - snd (ring ! i))"
  have "on_vertex ?x ?y (ring ! i) \<or> on_edge ?x ?y (ring ! i) (next_vertex ring i)"
    using segment_point_hit [OF assms(2,3), of "fst (ring ! i)" "fst (next_vertex ring i)"
        "snd (ring ! i)" "snd (next_vertex ring i)"] by simp
  moreover have "i \<in> set [0..<length ring]" using assms(1) by simp
  ultimately have "boundary_flagged ?x ?y ring"
    unfolding boundary_flagged_def list_ex_iff by blast
  then show ?thesis by (simp add: edge_loop_iff)
qed

lemma next_vertex_in_set: "i < length ring \<Longrightarrow> next_vertex ring i \<in> set ring"
proof -
  assume "i < length ring"
  then have "0 < length ring" by (cases ring) simp_all
  then have "(i + 1) mod length ring < length ring" by (rule mod_less_divisor)
  then show ?thesis unfolding next_vertex_def by (rule nth_mem)
qed

lemma contains_segment:
  assumes "i < length ring" "0 \<le> t" "t \<le> 1"
  shows "is_point_in_polygon (fst (ring ! i) + t * (fst (next_vertex ring i) - fst (ring ! i)))
                   (snd (ring ! i) + t * (snd (next_vertex ring i) - snd (ring ! i))) ring = Inr True"
proof -
  have ne: "ring \<noteq> []" using assms(1) by auto
  have "ring ! i \<in> set ring" using assms(1) by simp
  then show ?thesis
    using in_bbox_segment [OF _ next_vertex_in_set [OF assms(1)] assms(2,3)]
      edge_loop_segment [OF assms]
    by (simp add: single_nonempty [OF ne])
qed

lemma fold_min_const: "\<forall>v\<in>set xs. v = a \<Longrightarrow> fold min xs (a::real) = a"
  by (induction xs) auto

lemma fold_max_const: "\<forall>v\<in>set xs. v = a \<Longrightarrow> fold max xs (a::real) = a"
  by (induction xs) auto

lemma in_bbox_all_equal:
  assumes "ring \<noteq> []" "\<forall>v\<in>set ring. v = hd ring"
  shows "in_bbox x y ring = ((x, y) = hd ring)"
proof -
  obtain p ps where r: "ring = p # ps" using assms(1) by (cases ring) auto
  have "\<forall>v\<in>set (map fst ps). v = fst p" "\<forall>v\<in>set (map snd ps). v = snd p"
    using assms(2) by (auto simp add: r)
  then have "fold min (map fst ps) (fst p) = fst p" "fold max (map fst ps) (fst p) = fst p"
    "fold min (map snd ps) (snd p) = snd p" "fold max (map snd ps) (snd p) = snd p"
    by (simp_all add: fold_min_const fold_max_const)
  then show ?thesis by (cases p) (auto simp add: in_bbox_def r)
qed

lemma edge_loop_at_first_vertex:
  assumes "ring \<noteq> []"
  shows "edge_loop (fst (hd ring)) (snd (hd ring)) ring"
proof -
  have "0 < length ring" using assms by simp
  moreover have "on_vertex (fst (hd ring)) (snd (hd ring)) (ring ! 0)"
    using assms by (simp add: on_vertex_def hd_conv_nth)
  ultimately have "boundary_flagged (fst (hd ring)) (snd (hd ring)) ring"
    unfolding boundary_flagged_def list_ex_iff by (metis atLeast0LessThan lessThan_iff set_upt)
  then show ?thesis by (simp add: edge_loop_iff)
qed


text \<open>
  The flag of a point is never reset: the mask of the ray-casting step is the negation of
  the flag itself, so the step toggles only points whose flag is still false
  (lemma \<open>edge_step_sticky\<close>). The loop therefore answers true exactly when the point is
  flagged by a coincidence check or the ray crosses at least one edge
  (lemma \<open>edge_loop_iff\<close>), not when the number of crossings is odd.
\<close>

text \<open>
  Claim C1 says that for a ring of three or more vertices and a query point inside the
  bounding box that no vertex or edge coincidence check flags, the containment test
  returns the even-odd parity of the ray crossings. The code at the concave ring
  \<open>(0,0), (8,4), (0,8), (6,4)\<close> and the query point \<open>(1, 3)\<close>, which lies in the notch
  outside the ring: the point is inside the bounding box and is not flagged, the ray
  crosses two edges, and the test answers true.
\<close>

theorem sticky_flag_breaks_parity:
  "is_point_in_polygon_vectorized [(1, 3)] [(0, 0), (8, 4), (0, 8), (6, 4)] = Inr [True] \<and>
   in_bbox 1 3 [(0, 0), (8, 4), (0, 8), (6, 4)] \<and>
   \<not> boundary_flagged 1 3 [(0, 0), (8, 4), (0, 8), (6, 4)] \<and>
   ray_crossings 1 3 [(0, 0), (8, 4), (0, 8), (6, 4)] = 2"
  by (simp add: vectorized_nonempty edge_loop_iff in_bbox_def boundary_flagged_def
        ray_crossings_def on_vertex_def on_edge_def crosses_def next_vertex_def Let_def upt_rec
        power2_eq_square)

text \<open>
  Claim C4 says that the bounding-box prefilter is invisible, also for points outside the
  box but within the tolerances of the boundary. The point \<open>(-1e-10, 0)\<close> lies outside the
  box of the square \<open>(0,0), (0,4), (4,4), (4,0)\<close> and within \<^verbatim>\<open>1e-9\<close> of its first
  vertex: the test answers false, the pipeline without the prefilter answers true.
\<close>

theorem bbox_prefilter_visible:
  "is_point_in_polygon_vectorized [(- 1 / 10 ^ 10, 0)] [(0, 0), (0, 4), (4, 4), (4, 0)]
     = Inr [False] \<and>
   contains_without_prefilter [(- 1 / 10 ^ 10, 0)] [(0, 0), (0, 4), (4, 4), (4, 0)] = [True]"
  by (simp add: vectorized_nonempty contains_without_prefilter_def edge_loop_iff in_bbox_def
        boundary_flagged_def ray_crossings_def on_vertex_def on_edge_def crosses_def
        next_vertex_def Let_def upt_rec power2_eq_square)

text \<open>
  Claim C4, amended. For every non-empty ring and every batch of query points the
  containment test does not raise, and its answer for a point is the answer of the
  pipeline without the prefilter when the point is inside the ring's bounding box, and
  false when the point is outside the box.
\<close>

theorem bbox_prefilter_effect:
  assumes "polygon \<noteq> []"
  shows "is_point_in_polygon_vectorized pts polygon =
           Inr (map2 (\<lambda>(x, y) r. in_bbox x y polygon \<and> r) pts
                  (contains_without_prefilter pts polygon))"
  using assms
  by (simp add: vectorized_nonempty contains_without_prefilter_def zip_map2 case_prod_unfold
        zip_same_conv_map)

theorem bbox_prefilter_effect_witness:
  "is_point_in_polygon_vectorized [(2, 2), (5, 2)] [(0, 0), (0, 4), (4, 4), (4, 0)] =
     Inr (map2 (\<lambda>(x, y) r. in_bbox x y [(0, 0), (0, 4), (4, 4), (4, 0)] \<and> r) [(2, 2), (5, 2)]
            (contains_without_prefilter [(2, 2), (5, 2)] [(0, 0), (0, 4), (4, 4), (4, 0)])) \<and>
   is_point_in_polygon_vectorized [(2, 2), (5, 2)] [(0, 0), (0, 4), (4, 4), (4, 0)] =
     Inr [True, False]"
  using bbox_prefilter_effect [of "[(0, 0), (0, 4), (4, 4), (4, 0)]" "[(2, 2), (5, 2)]"]
  by (simp add: contains_without_prefilter_def edge_loop_iff in_bbox_def boundary_flagged_def
        ray_crossings_def on_vertex_def on_edge_def crosses_def next_vertex_def Let_def upt_rec
        power2_eq_square)

text \<open>
  Claim C6 says that a degenerate ring yields false for every query point and never
  raises. A ring of one point answers true for the query at that point, and an empty ring
  raises ValueError in the bounding-box reduction.
\<close>

theorem single_point_ring_contains_its_vertex:
  "is_point_in_polygon_vectorized [(0, 0)] [(0, 0)] = Inr [True] \<and>
   is_point_in_polygon_vectorized [(0, 0)] [] = Inl ValueError"
  by (simp add: vectorized_nonempty vectorized_empty_ring edge_loop_iff in_bbox_def
        boundary_flagged_def on_vertex_def)

text \<open>
  Claim C6, amended. For every non-empty ring, degenerate or not, the containment test
  does not raise and returns one answer per query point; for a ring whose vertices are all
  equal (every ring of one point is such a ring) the answer is true for a query point
  equal to that vertex and false for every other query point.
\<close>

theorem degenerate_ring_containment:
  assumes "ring \<noteq> []"
  shows "(\<exists>bs. is_point_in_polygon_vectorized pts ring = Inr bs \<and> length bs = length pts) \<and>
         ((\<forall>v\<in>set ring. v = hd ring) \<longrightarrow>
            is_point_in_polygon_vectorized pts ring = Inr (map (\<lambda>p. p = hd ring) pts))"
proof (intro conjI impI)
  show "\<exists>bs. is_point_in_polygon_vectorized pts ring = Inr bs \<and> length bs = length pts"
    using assms by (simp add: vectorized_nonempty)
next
  assume eq: "\<forall>v\<in>set ring. v = hd ring"
  have "(in_bbox x y ring \<and> edge_loop x y ring) = ((x, y) = hd ring)" for x y
    using edge_loop_at_first_vertex [OF assms] in_bbox_all_equal [OF assms eq, of x y]
    by (metis fst_conv snd_conv)
  then show "is_point_in_polygon_vectorized pts ring = Inr (map (\<lambda>p. p = hd ring) pts)"
    using assms by (simp add: vectorized_nonempty case_prod_unfold)
qed

theorem degenerate_ring_containment_witness:
  "is_point_in_polygon_vectorized [(1, 2), (3, 3), (3, 4)] [(3, 3), (3, 3)] =
     Inr [False, True, False]"
  using degenerate_ring_containment [of "[(3, 3), (3, 3)]" "[(1, 2), (3, 3), (3, 4)]"] by simp

section \<open>The evaluators\<close>

lemma zip_fst_snd: "zip (map fst xs) (map snd xs) = xs"
  by (induction xs) auto

lemma vertex_distances_scalar:
  "map Inr (vertex_distances user_lon user_lat ring) =
     map (\<lambda>(x, y). haversine user_lon user_lat x y) ring"
  by (simp add: vertex_distances_def haversine_vectorized_def zip_fst_snd haversine_total
        haversine_a_def Let_def case_prod_unfold)

lemma vertex_distances_map:
  "vertex_distances lon lat ring =
     map (\<lambda>v. EARTH_RADIUS_MILES * (2 * arcsin (sqrt
            (haversine_a (radians lon) (radians lat) (radians (fst v)) (radians (snd v)))))) ring"
  by (simp add: vertex_distances_def haversine_vectorized_def zip_fst_snd haversine_a_def Let_def
        case_prod_unfold)

lemma length_vertex_distances: "length (vertex_distances user_lon user_lat ring) = length ring"
  by (simp add: vertex_distances_def haversine_vectorized_def)

lemma vertex_distances_empty: "(vertex_distances user_lon user_lat ring = []) = (ring = [])"
  using length_vertex_distances [of user_lon user_lat ring] by (metis length_0_conv)

lemma np_min_Min: "ds \<noteq> [] \<Longrightarrow> np_min ds = Inr (Min (set ds))"
  by (cases ds) (simp_all only: np_min.simps fold_min_Min, simp)

lemma in_polygon_total:
  "polygon \<noteq> [] \<Longrightarrow> is_point_in_polygon_vectorized [(x, y)] polygon =
      Inr [in_bbox x y polygon \<and> edge_loop x y polygon]"
  by (simp add: vectorized_nonempty)

lemma cone_evaluator_on_ring:
  assumes "geometry c = Some (polygon # others)" "polygon \<noteq> []"
  shows "calculate_distance_to_cone user_lat user_lon c =
           (if is_point_in_polygon user_lon user_lat polygon = Inr True then (Miles 0, True)
            else (Miles (Min (set (vertex_distances user_lon user_lat polygon))), False))"
proof -
  have ne: "vertex_distances user_lon user_lat polygon \<noteq> []"
    using assms(2) by (simp add: vertex_distances_empty)
  show ?thesis
    using assms np_min_Min [OF ne]
    by (simp add: calculate_distance_to_cone_def calculate_distance_to_cone_try_def
          in_polygon_total single_nonempty vertex_distances_def)
qed

text \<open>The minimum of the batched distances to the vertices of a ring is the distance the
  scalar function \<open>haversine\<close> gives for one of the vertices, and is at most the distance it
  gives for any vertex.\<close>

lemma Min_vertex_distances_haversine:
  assumes "polygon \<noteq> []"
  shows "(\<exists>v\<in>set polygon. haversine user_lon user_lat (fst v) (snd v) =
             Inr (Min (set (vertex_distances user_lon user_lat polygon)))) \<and>
         (\<forall>w\<in>set polygon. \<exists>d'. haversine user_lon user_lat (fst w) (snd w) = Inr d' \<and>
             Min (set (vertex_distances user_lon user_lat polygon)) \<le> d')"
proof -
  let ?f = "\<lambda>v. EARTH_RADIUS_MILES * (2 * arcsin (sqrt
            (haversine_a (radians user_lon) (radians user_lat) (radians (fst v)) (radians (snd v)))))"
  have s: "set (vertex_distances user_lon user_lat polygon) = ?f ` set polygon"
    by (simp add: vertex_distances_map)
  have h: "haversine user_lon user_lat (fst v) (snd v) = Inr (?f v)" for v
    by (rule haversine_total)
  have "Min (?f ` set polygon) \<in> ?f ` set polygon"
    using assms by (intro Min_in) simp_all
  then obtain v where v: "v \<in> set polygon" "Min (?f ` set polygon) = ?f v"
    by blast
  have "haversine user_lon user_lat (fst v) (snd v) = Inr (Min (?f ` set polygon))"
    unfolding v(2) by (rule h)
  then have a: "\<exists>v\<in>set polygon. haversine user_lon user_lat (fst v) (snd v) =
             Inr (Min (?f ` set polygon))"
    using v(1) by blast
  have "Min (?f ` set polygon) \<le> ?f w" if "w \<in> set polygon" for w
    using that by (intro Min_le finite_imageI imageI) simp_all
  then have b: "\<forall>w\<in>set polygon. \<exists>d'. haversine user_lon user_lat (fst w) (snd w) = Inr d' \<and>
             Min (?f ` set polygon) \<le> d'"
    using h by blast
  show ?thesis unfolding s using a b by blast
qed

text \<open>
  Claim C3. For every cone row whose geometry has rings, the first of them non-empty, and
  every query point: the containment test on that ring does not raise; if it reports the
  point inside or on the boundary the evaluator returns distance 0 and contained true;
  otherwise it returns contained false and a distance that \<open>haversine\<close> gives from the
  query point to one of the vertices of the ring and that is at most the \<open>haversine\<close>
  distance from the query point to any vertex of the ring.
\<close>

theorem cone_with_ring:
  assumes "geometry c = Some (polygon # others)" "polygon \<noteq> []"
  shows "(\<exists>inside. is_point_in_polygon user_lon user_lat polygon = Inr inside) \<and>
         (is_point_in_polygon user_lon user_lat polygon = Inr True \<longrightarrow>
            calculate_distance_to_cone user_lat user_lon c = (Miles 0, True)) \<and>
         (is_point_in_polygon user_lon user_lat polygon = Inr False \<longrightarrow>
            (\<exists>d. calculate_distance_to_cone user_lat user_lon c = (Miles d, False) \<and>
                 (\<exists>v\<in>set polygon. haversine user_lon user_lat (fst v) (snd v) = Inr d) \<and>
                 (\<forall>w\<in>set polygon. \<exists>d'. haversine user_lon user_lat (fst w) (snd w) = Inr d' \<and>
                     d \<le> d')))"
  using cone_evaluator_on_ring [OF assms] Min_vertex_distances_haversine [OF assms(2)] assms(2)
  by (simp add: single_nonempty)

lemma haversine_distance_mono:
  assumes "haversine_a l1 p1 l2 p2 \<le> haversine_a m1 q1 m2 q2"
  shows "EARTH_RADIUS_MILES * (2 * arcsin (sqrt (haversine_a l1 p1 l2 p2))) \<le>
         EARTH_RADIUS_MILES * (2 * arcsin (sqrt (haversine_a m1 q1 m2 q2)))"
proof -
  have r: "0 \<le> haversine_a l1 p1 l2 p2" "haversine_a m1 q1 m2 q2 \<le> 1"
    using haversine_domain by blast+
  have "- 1 \<le> sqrt (haversine_a l1 p1 l2 p2)"
    using r(1) by (meson order_trans real_sqrt_ge_zero zero_le_one neg_le_0_iff_le
        le_minus_one_simps(1))
  moreover have "sqrt (haversine_a l1 p1 l2 p2) \<le> sqrt (haversine_a m1 q1 m2 q2)"
    using assms by simp
  moreover have "sqrt (haversine_a m1 q1 m2 q2) \<le> 1" using r(2) by simp
  ultimately have "arcsin (sqrt (haversine_a l1 p1 l2 p2)) \<le> arcsin (sqrt (haversine_a m1 q1 m2 q2))"
    by (rule arcsin_le_arcsin)
  then show ?thesis by (simp add: EARTH_RADIUS_MILES_def)
qed

text \<open>The specification's ring and the query point at longitude -85, latitude 30: of the
  four vertices, \<open>(-90, 35)\<close> is the nearest.\<close>

lemma nearest_vertex_of_example:
  "haversine_a (radians (-85)) (radians 30) (radians (-90)) (radians 35) \<le>
     haversine_a (radians (-85)) (radians 30) (radians (-100)) (radians 25) \<and>
   haversine_a (radians (-85)) (radians 30) (radians (-90)) (radians 35) \<le>
     haversine_a (radians (-85)) (radians 30) (radians (-100)) (radians 35) \<and>
   haversine_a (radians (-85)) (radians 30) (radians (-90)) (radians 35) \<le>
     haversine_a (radians (-85)) (radians 30) (radians (-90)) (radians 25)"
proof -
  define S where "S = (sin (pi / 72))\<^sup>2"
  define T where "T = (sin (pi / 24))\<^sup>2"
  define C where "C = cos (radians 30)"
  define c35 where "c35 = cos (radians 35)"
  define c25 where "c25 = cos (radians 25)"
  have e: "(radians 35 - radians 30) / 2 = pi / 72" "(radians 25 - radians 30) / 2 = - (pi / 72)"
    "(radians (-90) - radians (-85)) / 2 = - (pi / 72)"
    "(radians (-100) - radians (-85)) / 2 = - (pi / 24)"
    by (simp_all add: radians_def)
  have a3: "haversine_a (radians (-85)) (radians 30) (radians (-90)) (radians 35) = S + C * c35 * S"
    and a4: "haversine_a (radians (-85)) (radians 30) (radians (-90)) (radians 25) = S + C * c25 * S"
    and a2: "haversine_a (radians (-85)) (radians 30) (radians (-100)) (radians 35) = S + C * c35 * T"
    and a1: "haversine_a (radians (-85)) (radians 30) (radians (-100)) (radians 25) = S + C * c25 * T"
    unfolding haversine_a_def e S_def T_def C_def c35_def c25_def by simp_all
  have p: "0 < pi" by (rule pi_gt_zero)
  have C: "0 \<le> C" unfolding C_def radians_def using p by (intro cos_ge_zero) simp_all
  have c35: "0 \<le> c35" unfolding c35_def radians_def using p by (intro cos_ge_zero) simp_all
  have c: "c35 \<le> c25" unfolding c35_def c25_def radians_def
    using p by (intro cos_monotone_0_pi_le) simp_all
  have s0: "0 \<le> sin (pi / 72)" using p by (intro sin_ge_zero) simp_all
  have "sin (pi / 72) \<le> sin (pi / 24)" using p by (intro sin_monotone_2pi_le) simp_all
  then have st: "S \<le> T" unfolding S_def T_def using s0 by (intro power_mono)
  have S: "0 \<le> S" unfolding S_def by simp
  have c25: "0 \<le> c25" using c35 c by simp
  have "C * c35 * S \<le> C * c25 * S"
    using C c S by (intro mult_right_mono mult_left_mono)
  moreover have "C * c35 * S \<le> C * c35 * T"
    using C c35 st by (intro mult_left_mono mult_nonneg_nonneg)
  moreover have "C * c35 * T \<le> C * c25 * T"
    using C c S st by (intro mult_right_mono mult_left_mono) simp_all
  ultimately show ?thesis unfolding a1 a2 a3 a4 by linarith
qed

theorem cone_with_ring_witness:
  "calculate_distance_to_cone 30 (-95)
     \<lparr>STORMNAME = ''ANA'', STORMNUM = 1,
      geometry = Some [[(-100, 25), (-100, 35), (-90, 35), (-90, 25)]],
      LAT = None, LON = None\<rparr> = (Miles 0, True) \<and>
   calculate_distance_to_cone 30 (-85)
     \<lparr>STORMNAME = ''ANA'', STORMNUM = 1,
      geometry = Some [[(-100, 25), (-100, 35), (-90, 35), (-90, 25)]],
      LAT = None, LON = None\<rparr> =
     (Miles (EARTH_RADIUS_MILES * (2 * arcsin (sqrt
        (haversine_a (radians (-85)) (radians 30) (radians (-90)) (radians 35))))), False)"
proof -
  let ?c = "\<lparr>STORMNAME = ''ANA'', STORMNUM = 1,
      geometry = Some [[(-100, 25), (-100, 35), (-90, 35), (-90, 25)]],
      LAT = None, LON = None\<rparr>"
  let ?ring = "[(-100, 25), (-100, 35), (-90, 35), (-90, 25)] :: point list"
  let ?f = "\<lambda>lon2 lat2. EARTH_RADIUS_MILES * (2 * arcsin (sqrt
        (haversine_a (radians (-85)) (radians 30) (radians lon2) (radians lat2))))"
  have inside: "is_point_in_polygon (-95) 30 ?ring = Inr True"
    by (simp add: single_nonempty edge_loop_iff in_bbox_def boundary_flagged_def
          ray_crossings_def on_vertex_def on_edge_def crosses_def next_vertex_def Let_def upt_rec
          power2_eq_square)
  have outside: "is_point_in_polygon (-85) 30 ?ring = Inr False"
    by (simp add: single_nonempty in_bbox_def)
  have first: "calculate_distance_to_cone 30 (-95) ?c = (Miles 0, True)"
    using cone_with_ring [of ?c ?ring "[]" "-95" 30] inside by simp
  obtain d where d: "calculate_distance_to_cone 30 (-85) ?c = (Miles d, False)"
    and at: "\<exists>v\<in>set ?ring. haversine (-85) 30 (fst v) (snd v) = Inr d"
    and le: "\<forall>w\<in>set ?ring. \<exists>d'. haversine (-85) 30 (fst w) (snd w) = Inr d' \<and> d \<le> d'"
    using cone_with_ring [of ?c ?ring "[]" "-85" 30] outside by auto
  have n1: "?f (-90) 35 \<le> ?f (-100) 25"
    by (rule haversine_distance_mono) (rule nearest_vertex_of_example [THEN conjunct1])
  have n2: "?f (-90) 35 \<le> ?f (-100) 35"
    by (rule haversine_distance_mono)
      (rule nearest_vertex_of_example [THEN conjunct2, THEN conjunct1])
  have n3: "?f (-90) 35 \<le> ?f (-90) 25"
    by (rule haversine_distance_mono)
      (rule nearest_vertex_of_example [THEN conjunct2, THEN conjunct2])
  have "d \<le> ?f (-90) 35" using le by (simp add: haversine_total)
  moreover have "?f (-90) 35 \<le> d" using at n1 n2 n3 by (auto simp add: haversine_total)
  ultimately have "d = ?f (-90) 35" by simp
  then show ?thesis using first d by simp
qed

lemma fire_rings_loop_eq:
  "fire_rings_loop user_lat user_lon irs (io, ih, md) =
     Inr (io \<or> list_ex (\<lambda>(i, r). 3 \<le> length r \<and> i = 0 \<and>
                 is_point_in_polygon user_lon user_lat r = Inr True) irs,
          ih \<or> list_ex (\<lambda>(i, r). 3 \<le> length r \<and> i \<noteq> 0 \<and>
                 is_point_in_polygon user_lon user_lat r = Inr True) irs,
          fold (\<lambda>(i, r). ring_step user_lon user_lat r) irs md)"
proof (induction irs arbitrary: io ih md)
  case Nil
  show ?case by simp
next
  case (Cons a irs)
  obtain i ring where a: "a = (i, ring)" by (cases a)
  show ?case
  proof (cases "3 \<le> length ring")
    case False
    then show ?thesis by (simp add: a Cons.IH ring_step_def)
  next
    case True
    then have ne: "ring \<noteq> []" by auto
    have vne: "vertex_distances user_lon user_lat ring \<noteq> []"
      using ne by (simp add: vertex_distances_empty)
    have m: "np_min (haversine_vectorized user_lon user_lat (map fst ring) (map snd ring)) =
               Inr (Min (set (vertex_distances user_lon user_lat ring)))"
      using np_min_Min [OF vne] by (simp add: vertex_distances_def)
    show ?thesis
      using True ne
      by (simp add: a in_polygon_total [OF ne] single_nonempty [OF ne] m Cons.IH ring_step_def)
        auto
  qed
qed

lemma fire_try_total:
  "\<exists>r. calculate_distance_to_fire_try user_lat user_lon f = Inr r"
  by (auto simp add: calculate_distance_to_fire_try_def fire_rings_loop_eq Let_def)

text \<open>
  Claim C8 says that a record without ring geometry that carries a fallback coordinate
  gets the haversine distance to that coordinate. A fire row without rings and with a
  point of origin gets distance infinity: the fire evaluator never reads the point of
  origin, although the haversine distance to it is a number.
\<close>

theorem fire_without_rings_ignores_origin:
  "calculate_distance_to_fire 31 (-96)
     \<lparr>poly_IncidentName = ''Creek'', geometry_rings = [],
      attr_POOLatitude = Some 30, attr_POOLongitude = Some (-95)\<rparr> = (Infinity, False) \<and>
   haversine (-96) 31 (-95) 30 =
     Inr (EARTH_RADIUS_MILES * (2 * arcsin (sqrt
       (haversine_a (radians (-96)) (radians 31) (radians (-95)) (radians 30)))))"
  by (simp add: calculate_distance_to_fire_def calculate_distance_to_fire_try_def haversine_total)

text \<open>
  Claim C8, amended. The evaluators never raise: the body of the fire evaluator raises on
  no row, and an exception of the body of the cone evaluator becomes distance infinity
  and contained false. A cone row without ring geometry whose \<open>LAT\<close> and \<open>LON\<close> are both
  floats other than 0 and NaN gets the haversine distance to that coordinate and contained
  false. A cone row without ring geometry for which \<open>LAT\<close> or \<open>LON\<close> is \<^verbatim>\<open>None\<close> (the
  table has no such column) gets distance infinity and contained false, and so does a
  cone row whose list of rings is empty, whatever its \<open>LAT\<close> and \<open>LON\<close>. A fire row
  without rings gets distance infinity and contained false, whatever its point of origin.
\<close>

theorem evaluators_without_rings:
  "(geometry c = None \<and> LAT c = Some (Num cone_lat) \<and> LON c = Some (Num cone_lon) \<and>
      cone_lat \<noteq> 0 \<and> cone_lon \<noteq> 0 \<longrightarrow>
      (\<exists>d. haversine user_lon user_lat cone_lon cone_lat = Inr d \<and>
           calculate_distance_to_cone user_lat user_lon c = (Miles d, False))) \<and>
   (geometry c = None \<and> (LAT c = None \<or> LON c = None) \<longrightarrow>
      calculate_distance_to_cone user_lat user_lon c = (Infinity, False)) \<and>
   (geometry c = Some [] \<longrightarrow>
      calculate_distance_to_cone user_lat user_lon c = (Infinity, False)) \<and>
   (geometry_rings f = [] \<longrightarrow>
      calculate_distance_to_fire user_lat user_lon f = (Infinity, False)) \<and>
   (calculate_distance_to_cone_try user_lat user_lon c = Inl e \<longrightarrow>
      calculate_distance_to_cone user_lat user_lon c = (Infinity, False)) \<and>
   (\<exists>r. calculate_distance_to_fire_try user_lat user_lon f = Inr r)"
  using fire_try_total [of user_lat user_lon f]
  by (auto simp add: calculate_distance_to_cone_def calculate_distance_to_cone_try_def
        calculate_distance_to_fire_def calculate_distance_to_fire_try_def haversine_total)

theorem evaluators_without_rings_witness:
  "calculate_distance_to_cone 31 (-96)
     \<lparr>STORMNAME = ''ANA'', STORMNUM = 1, geometry = None,
      LAT = Some (Num 30), LON = Some (Num (-95))\<rparr> =
     (Miles (EARTH_RADIUS_MILES * (2 * arcsin (sqrt
        (haversine_a (radians (-96)) (radians 31) (radians (-95)) (radians 30))))), False) \<and>
   calculate_distance_to_cone 31 (-96)
     \<lparr>STORMNAME = ''ANA'', STORMNUM = 1, geometry = None,
      LAT = None, LON = Some (Num (-95))\<rparr> = (Infinity, False) \<and>
   calculate_distance_to_cone_try 31 (-96)
     \<lparr>STORMNAME = ''ANA'', STORMNUM = 1, geometry = Some [],
      LAT = Some (Num 30), LON = Some (Num (-95))\<rparr> = Inl IndexError \<and>
   calculate_distance_to_cone 31 (-96)
     \<lparr>STORMNAME = ''ANA'', STORMNUM = 1, geometry = Some [],
      LAT = Some (Num 30), LON = Some (Num (-95))\<rparr> = (Infinity, False) \<and>
   calculate_distance_to_fire 31 (-96)
     \<lparr>poly_IncidentName = ''Creek'', geometry_rings = [],
      attr_POOLatitude = None, attr_POOLongitude = None\<rparr> = (Infinity, False)"
  using
    evaluators_without_rings
      [of "\<lparr>STORMNAME = ''ANA'', STORMNUM = 1, geometry = None,
            LAT = Some (Num 30), LON = Some (Num (-95))\<rparr>"
          30 "-95" "-96" 31
          "\<lparr>poly_IncidentName = ''Creek'', geometry_rings = [],
            attr_POOLatitude = None, attr_POOLongitude = None\<rparr>"]
    evaluators_without_rings
      [of "\<lparr>STORMNAME = ''ANA'', STORMNUM = 1, geometry = None,
            LAT = None, LON = Some (Num (-95))\<rparr>"
          30 "-95" "-96" 31
          "\<lparr>poly_IncidentName = ''Creek'', geometry_rings = [],
            attr_POOLatitude = None, attr_POOLongitude = None\<rparr>"]
    evaluators_without_rings
      [of "\<lparr>STORMNAME = ''ANA'', STORMNUM = 1, geometry = Some [],
            LAT = Some (Num 30), LON = Some (Num (-95))\<rparr>"
          30 "-95" "-96" 31
          "\<lparr>poly_IncidentName = ''Creek'', geometry_rings = [],
            attr_POOLatitude = None, attr_POOLongitude = None\<rparr>" IndexError]
  by (simp add: haversine_total calculate_distance_to_cone_try_def)

lemma list_ex_enumerate_zero:
  "0 < n \<Longrightarrow> list_ex (\<lambda>(i, r). Q r \<and> i = 0 \<and> R r) (enumerate n xs) = False"
  by (induction xs arbitrary: n) auto

lemma list_ex_enumerate_nonzero:
  "0 < n \<Longrightarrow> list_ex (\<lambda>(i, r). Q r \<and> i \<noteq> 0 \<and> R r) (enumerate n xs) = list_ex (\<lambda>r. Q r \<and> R r) xs"
  by (induction xs arbitrary: n) auto

lemma list_ex_enumerate_pos:
  "0 < n \<Longrightarrow> list_ex (\<lambda>(i, r). Q r \<and> 0 < i \<and> R r) (enumerate n xs) = list_ex (\<lambda>r. Q r \<and> R r) xs"
  by (induction xs arbitrary: n) auto

lemma fold_enumerate: "fold (\<lambda>(i, r). g r) (enumerate n xs) m = fold g xs m"
  by (induction xs arbitrary: n m) auto

lemma vertex_distances_append:
  "vertex_distances lon lat (xs @ ys) = vertex_distances lon lat xs @ vertex_distances lon lat ys"
  by (simp add: vertex_distances_def haversine_vectorized_def zip_fst_snd flip: map_append)

lemma ring_step_Miles:
  "3 \<le> length r \<Longrightarrow>
     ring_step lon lat r (Miles a) = Miles (min a (Min (set (vertex_distances lon lat r))))"
  by (simp add: ring_step_def min_def)

lemma ring_step_Infinity:
  "3 \<le> length r \<Longrightarrow>
     ring_step lon lat r Infinity = Miles (Min (set (vertex_distances lon lat r)))"
  by (simp add: ring_step_def)

lemma fold_ring_step_Min:
  assumes "ds \<noteq> []" "\<forall>r\<in>set rs. 3 \<le> length r"
  shows "fold (ring_step lon lat) rs (Miles (Min (set ds))) =
           Miles (Min (set (ds @ vertex_distances lon lat (concat rs))))"
  using assms
proof (induction rs arbitrary: ds)
  case Nil
  then show ?case by (simp add: vertex_distances_def haversine_vectorized_def)
next
  case (Cons r rs)
  have "r \<noteq> []" using Cons.prems(2) by auto
  then have vne: "vertex_distances lon lat r \<noteq> []" by (simp add: vertex_distances_empty)
  have "min (Min (set ds)) (Min (set (vertex_distances lon lat r))) =
          Min (set (ds @ vertex_distances lon lat r))"
    using Cons.prems(1) vne by (simp add: Min_Un)
  then have "ring_step lon lat r (Miles (Min (set ds))) =
          Miles (Min (set (ds @ vertex_distances lon lat r)))"
    using Cons.prems(2) by (simp add: ring_step_Miles min.commute)
  moreover have "ds @ vertex_distances lon lat r \<noteq> []" using vne by simp
  ultimately show ?case
    using Cons.IH [of "ds @ vertex_distances lon lat r"] Cons.prems(2)
    by (simp add: vertex_distances_append)
qed

lemma fold_ring_step_all:
  assumes "\<forall>r\<in>set (outer # holes). 3 \<le> length r"
  shows "fold (ring_step lon lat) (outer # holes) Infinity =
           Miles (Min (set (vertex_distances lon lat (concat (outer # holes)))))"
proof -
  have "outer \<noteq> []" using assms by auto
  then have vne: "vertex_distances lon lat outer \<noteq> []" by (simp add: vertex_distances_empty)
  have "ring_step lon lat outer Infinity = Miles (Min (set (vertex_distances lon lat outer)))"
    using assms by (simp add: ring_step_Infinity)
  then show ?thesis
    using fold_ring_step_Min [OF vne, of holes lon lat] assms
    by (simp add: vertex_distances_append)
qed

text \<open>What the fire evaluator computes on rings of three or more points, in terms of the
  containment test.\<close>

lemma fire_evaluator_on_rings:
  assumes "geometry_rings f = outer # holes" "\<forall>r\<in>set (outer # holes). 3 \<le> length r"
  shows "snd (calculate_distance_to_fire user_lat user_lon f) =
           (is_point_in_polygon user_lon user_lat outer = Inr True \<and>
            \<not> list_ex (\<lambda>h. is_point_in_polygon user_lon user_lat h = Inr True) holes) \<and>
         fst (calculate_distance_to_fire user_lat user_lon f) =
           (if snd (calculate_distance_to_fire user_lat user_lon f) then Miles 0
            else Miles (Min (set (vertex_distances user_lon user_lat (concat (outer # holes))))))"
proof -
  have o: "3 \<le> length outer" and h: "\<forall>r\<in>set holes. 3 \<le> length r" using assms(2) by auto
  have hx: "list_ex (\<lambda>r. 3 \<le> length r \<and> is_point_in_polygon user_lon user_lat r = Inr True) holes =
            list_ex (\<lambda>h. is_point_in_polygon user_lon user_lat h = Inr True) holes"
    using h by (auto simp add: list_ex_iff)
  have "fire_rings_loop user_lat user_lon (enumerate 0 (outer # holes)) (False, False, Infinity) =
          Inr (is_point_in_polygon user_lon user_lat outer = Inr True,
               list_ex (\<lambda>h. is_point_in_polygon user_lon user_lat h = Inr True) holes,
               Miles (Min (set (vertex_distances user_lon user_lat (concat (outer # holes))))))"
    unfolding fire_rings_loop_eq fold_enumerate fold_ring_step_all [OF assms(2)]
    using o by (simp add: list_ex_enumerate_zero list_ex_enumerate_nonzero list_ex_enumerate_pos hx del: fold_simps)
  then show ?thesis
    by (simp add: calculate_distance_to_fire_def calculate_distance_to_fire_try_def assms(1))
qed

text \<open>
  Claim C2 says that the fire evaluator reports contained exactly when the point is inside
  the outer ring and inside no hole ring. The evaluator takes the answer of the
  containment test for "inside", and that answer is wrong where the ray crosses an even,
  non-zero number of edges (claim C1). The code at a fire whose only ring is the concave
  ring \<open>(0,0), (8,4), (0,8), (6,4)\<close> and the query point at latitude 3, longitude 1, which
  lies in the notch outside the ring (not on its boundary, two ray crossings): the
  evaluator returns distance 0 and contained true.
\<close>

theorem fire_evaluator_contains_outside_point:
  "calculate_distance_to_fire 3 1
     \<lparr>poly_IncidentName = ''Creek'',
      geometry_rings = [[(0, 0), (8, 4), (0, 8), (6, 4)]],
      attr_POOLatitude = None, attr_POOLongitude = None\<rparr> = (Miles 0, True) \<and>
   \<not> boundary_flagged 1 3 [(0, 0), (8, 4), (0, 8), (6, 4)] \<and>
   ray_crossings 1 3 [(0, 0), (8, 4), (0, 8), (6, 4)] = 2"
proof -
  have "is_point_in_polygon 1 3 [(0, 0), (8, 4), (0, 8), (6, 4)] = Inr True \<and>
        \<not> boundary_flagged 1 3 [(0, 0), (8, 4), (0, 8), (6, 4)] \<and>
        ray_crossings 1 3 [(0, 0), (8, 4), (0, 8), (6, 4)] = 2"
    by (simp add: single_nonempty edge_loop_iff in_bbox_def boundary_flagged_def
          ray_crossings_def on_vertex_def on_edge_def crosses_def next_vertex_def Let_def upt_rec
          power2_eq_square)
  then show ?thesis
    by (simp add: calculate_distance_to_fire_def calculate_distance_to_fire_try_def
          fire_rings_loop_eq)
qed

lemma haversine_distance_nonneg:
  "0 \<le> EARTH_RADIUS_MILES * (2 * arcsin (sqrt (haversine_a lon1 lat1 lon2 lat2)))"
proof -
  have "0 \<le> haversine_a lon1 lat1 lon2 lat2" "haversine_a lon1 lat1 lon2 lat2 \<le> 1"
    using haversine_domain by blast+
  then have "sqrt (haversine_a lon1 lat1 lon2 lat2) \<in> {0..1}" by simp
  then have "0 \<le> arcsin (sqrt (haversine_a lon1 lat1 lon2 lat2))" by (rule arcsin_nonneg)
  then show ?thesis by (simp add: EARTH_RADIUS_MILES_def)
qed

lemma vertex_distances_nonneg: "d \<in> set (vertex_distances lon lat ring) \<Longrightarrow> 0 \<le> d"
  by (auto simp add: vertex_distances_map haversine_distance_nonneg)

lemma vertex_distances_self: "(lon, lat) \<in> set ring \<Longrightarrow> 0 \<in> set (vertex_distances lon lat ring)"
proof -
  assume "(lon, lat) \<in> set ring"
  moreover have "EARTH_RADIUS_MILES * (2 * arcsin (sqrt
            (haversine_a (radians lon) (radians lat) (radians (fst (lon, lat))) (radians (snd (lon, lat)))))) = 0"
    by (simp add: haversine_a_def)
  ultimately show ?thesis unfolding vertex_distances_map by (metis (no_types, lifting) image_eqI list.set_map)
qed

lemma Min_vertex_distances_nonneg:
  "ring \<noteq> [] \<Longrightarrow> 0 \<le> Min (set (vertex_distances lon lat ring))"
  by (simp add: vertex_distances_empty vertex_distances_nonneg)

lemma Min_vertex_distances_self:
  assumes "(lon, lat) \<in> set ring"
  shows "Min (set (vertex_distances lon lat ring)) = 0"
proof (rule antisym)
  show "Min (set (vertex_distances lon lat ring)) \<le> 0"
    using vertex_distances_self [OF assms] by (simp add: Min_le)
  have "ring \<noteq> []" using assms by auto
  then show "0 \<le> Min (set (vertex_distances lon lat ring))" by (rule Min_vertex_distances_nonneg)
qed

lemma ring_step_ge0: "Miles 0 \<le> m \<Longrightarrow> Miles 0 \<le> ring_step lon lat r m"
proof (cases "3 \<le> length r")
  case True
  assume m: "Miles 0 \<le> m"
  have "r \<noteq> []" using True by auto
  then have "Miles 0 \<le> Miles (Min (set (vertex_distances lon lat r)))"
    by (simp add: Min_vertex_distances_nonneg)
  then show ?thesis using m True by (simp add: ring_step_def)
next
  case False
  assume "Miles 0 \<le> m"
  then show ?thesis using False by (simp add: ring_step_def)
qed

lemma ring_step_zero: "ring_step lon lat r (Miles 0) = Miles 0"
proof (cases "3 \<le> length r")
  case True
  then have "r \<noteq> []" by auto
  then have "0 \<le> Min (set (vertex_distances lon lat r))" by (rule Min_vertex_distances_nonneg)
  then show ?thesis using True by (simp add: ring_step_def)
next
  case False
  then show ?thesis by (simp add: ring_step_def)
qed

lemma ring_step_at_vertex:
  assumes "Miles 0 \<le> m" "3 \<le> length r" "(lon, lat) \<in> set r"
  shows "ring_step lon lat r m = Miles 0"
  using assms(1,2) by (cases m) (simp_all add: ring_step_def Min_vertex_distances_self [OF assms(3)])

lemma fold_ring_step_zero:
  assumes "Miles 0 \<le> m" "(i, r) \<in> set irs" "3 \<le> length r" "(lon, lat) \<in> set r"
  shows "fold (\<lambda>(i, r). ring_step lon lat r) irs m = Miles 0"
  using assms(1,2)
proof (induction irs arbitrary: m)
  case Nil
  then show ?case by simp
next
  case (Cons a irs)
  obtain j q where a: "a = (j, q)" by (cases a)
  have ge: "Miles 0 \<le> ring_step lon lat q m" using Cons.prems(1) by (rule ring_step_ge0)
  show ?case
  proof (cases "(i, r) \<in> set irs")
    case True
    then show ?thesis using Cons.IH [OF ge True] by (simp add: a)
  next
    case False
    then have q: "q = r" using Cons.prems(2) a by auto
    have z: "ring_step lon lat q m = Miles 0"
      unfolding q using Cons.prems(1) assms(3,4) by (rule ring_step_at_vertex)
    have "fold (\<lambda>(i, r). ring_step lon lat r) irs (Miles 0) = Miles 0"
    proof (induction irs)
      case Nil
      show ?case by simp
    next
      case (Cons b irs)
      obtain k p where b: "b = (k, p)" by (cases b)
      show ?case using Cons.IH by (simp add: b ring_step_zero)
    qed
    then show ?thesis by (simp add: a z)
  qed
qed

lemma boundary_flagged_segment:
  assumes "i < length ring" "0 \<le> t" "t \<le> 1"
  shows "boundary_flagged (fst (ring ! i) + t * (fst (next_vertex ring i) - fst (ring ! i)))
                   (snd (ring ! i) + t * (snd (next_vertex ring i) - snd (ring ! i))) ring"
proof -
  let ?x = "fst (ring ! i) + t * (fst (next_vertex ring i) - fst (ring ! i))"
  let ?y = "snd (ring ! i) + t * (snd (next_vertex ring i) - snd (ring ! i))"
  have "on_vertex ?x ?y (ring ! i) \<or> on_edge ?x ?y (ring ! i) (next_vertex ring i)"
    using segment_point_hit [OF assms(2,3), of "fst (ring ! i)" "fst (next_vertex ring i)"
        "snd (ring ! i)" "snd (next_vertex ring i)"] by simp
  moreover have "i \<in> set [0..<length ring]" using assms(1) by simp
  ultimately show ?thesis
    unfolding boundary_flagged_def list_ex_iff by blast
qed

lemma fire_distance_at_vertex:
  assumes "ring \<in> set (geometry_rings f)" "3 \<le> length ring" "(x, y) \<in> set ring"
  shows "fst (calculate_distance_to_fire y x f) = Miles 0"
proof -
  obtain k where k: "k < length (geometry_rings f)" "geometry_rings f ! k = ring"
    using assms(1) by (auto simp add: in_set_conv_nth)
  then have mem: "(k, ring) \<in> set (enumerate 0 (geometry_rings f))"
    by (simp add: in_set_enumerate_eq)
  have ne: "geometry_rings f \<noteq> []" using assms(1) by auto
  have "Miles 0 \<le> Infinity" by simp
  then have z: "fold (\<lambda>(i, r). ring_step x y r) (enumerate 0 (geometry_rings f)) Infinity = Miles 0"
    using mem assms(2,3) by (rule fold_ring_step_zero)
  show ?thesis
    by (simp add: calculate_distance_to_fire_def calculate_distance_to_fire_try_def ne
          fire_rings_loop_eq z Let_def)
qed

text \<open>
  Claim C5. For every ring of three or more vertices and every query point that lies
  exactly on an edge segment of the ring, at parameter \<open>t\<close> in \<open>[0, 1]\<close> between the
  start and the end vertex of edge \<open>i\<close> (with \<open>t = 0\<close>: exactly at a vertex), the
  containment test returns true, and it is a vertex or edge coincidence check that flags
  the point. The cone evaluator then returns distance 0 and contained true, and for a
  query exactly at a vertex of one of its rings the fire evaluator returns distance 0.
\<close>

theorem boundary_points_contained:
  assumes "3 \<le> length ring" "i < length ring" "0 \<le> t" "t \<le> 1"
    and "x = fst (ring ! i) + t * (fst (next_vertex ring i) - fst (ring ! i))"
    and "y = snd (ring ! i) + t * (snd (next_vertex ring i) - snd (ring ! i))"
  shows "is_point_in_polygon x y ring = Inr True \<and>
         boundary_flagged x y ring \<and>
         (geometry c = Some (ring # others) \<longrightarrow>
            calculate_distance_to_cone y x c = (Miles 0, True)) \<and>
         (t = 0 \<and> ring \<in> set (geometry_rings f) \<longrightarrow>
            fst (calculate_distance_to_fire y x f) = Miles 0)"
proof (intro conjI impI)
  show in_ring: "is_point_in_polygon x y ring = Inr True"
    unfolding assms(5,6) using assms(2,3,4) by (rule contains_segment)
  show "boundary_flagged x y ring"
    unfolding assms(5,6) using assms(2,3,4) by (rule boundary_flagged_segment)
  have ne: "ring \<noteq> []" using assms(2) by auto
  show "calculate_distance_to_cone y x c = (Miles 0, True)"
    if "geometry c = Some (ring # others)"
    using cone_evaluator_on_ring [OF that ne, of y x] in_ring by simp
  show "fst (calculate_distance_to_fire y x f) = Miles 0"
    if "t = 0 \<and> ring \<in> set (geometry_rings f)"
  proof -
    have "(x, y) = ring ! i" using that assms(5,6) by simp
    then have "(x, y) \<in> set ring" using assms(2) by simp
    then show ?thesis using that assms(1) fire_distance_at_vertex by blast
  qed
qed

theorem boundary_points_contained_witness:
  "is_point_in_polygon (-100) 25 [(-100, 25), (-100, 35), (-90, 35), (-90, 25)] = Inr True \<and>
   calculate_distance_to_cone 25 (-100)
     \<lparr>STORMNAME = ''ANA'', STORMNUM = 1,
      geometry = Some [[(-100, 25), (-100, 35), (-90, 35), (-90, 25)]],
      LAT = None, LON = None\<rparr> = (Miles 0, True) \<and>
   fst (calculate_distance_to_fire 25 (-100)
     \<lparr>poly_IncidentName = ''Creek'',
      geometry_rings = [[(-100, 25), (-100, 35), (-90, 35), (-90, 25)]],
      attr_POOLatitude = None, attr_POOLongitude = None\<rparr>) = Miles 0 \<and>
   is_point_in_polygon (-100) 30 [(-100, 25), (-100, 35), (-90, 35), (-90, 25)] = Inr True"
  using
    boundary_points_contained [where ring = "[(-100, 25), (-100, 35), (-90, 35), (-90, 25)]" and i = 0 and t = 0
          and x = "-100" and y = 25 and others = "[]"
          and c = "\<lparr>STORMNAME = ''ANA'', STORMNUM = 1,
                    geometry = Some [[(-100, 25), (-100, 35), (-90, 35), (-90, 25)]],
                    LAT = None, LON = None\<rparr>"
          and f = "\<lparr>poly_IncidentName = ''Creek'',
                    geometry_rings = [[(-100, 25), (-100, 35), (-90, 35), (-90, 25)]],
                    attr_POOLatitude = None, attr_POOLongitude = None\<rparr>"]
    boundary_points_contained [where ring = "[(-100, 25), (-100, 35), (-90, 35), (-90, 25)]" and i = 0 and t = "1 / 2"
          and x = "-100" and y = 30 and others = "[]"
          and c = "\<lparr>STORMNAME = ''ANA'', STORMNUM = 1,
                    geometry = Some [[(-100, 25), (-100, 35), (-90, 35), (-90, 25)]],
                    LAT = None, LON = None\<rparr>"
          and f = "\<lparr>poly_IncidentName = ''Creek'',
                    geometry_rings = [[(-100, 25), (-100, 35), (-90, 35), (-90, 25)]],
                    attr_POOLatitude = None, attr_POOLongitude = None\<rparr>"]
  by (simp add: next_vertex_def)

section \<open>The rankers\<close>

subsection \<open>The sort\<close>

lemma miles_le_refl: "a \<noteq> NanMiles \<Longrightarrow> a \<le> (a::miles)"
  by (cases a) simp_all

lemma miles_le_total: "a \<noteq> NanMiles \<Longrightarrow> b \<noteq> NanMiles \<Longrightarrow> a \<le> b \<or> b \<le> (a::miles)"
  by (cases a; cases b) auto

lemma miles_le_trans: "a \<le> b \<Longrightarrow> b \<le> c \<Longrightarrow> a \<le> (c::miles)"
  by (cases a; cases b; cases c) simp_all

lemma miles_not_less: "a \<noteq> NanMiles \<Longrightarrow> (\<not> Miles r < a) = (a \<le> Miles r)"
  by (cases a) auto

lemma miles_ge_not_nan: "Miles r \<le> a \<Longrightarrow> a \<noteq> NanMiles"
  by (cases a) simp_all

lemma set_insort_miles: "set (insort_miles key x ys) = insert x (set ys)"
  by (induction ys) auto

lemma length_insort_miles: "length (insort_miles key x ys) = Suc (length ys)"
  by (induction ys) auto

lemma sorted_insort_miles:
  assumes "key x \<noteq> NanMiles" "\<forall>y\<in>set ys. key y \<noteq> NanMiles"
    and "sorted_wrt (\<lambda>a b. key a \<le> key b) ys"
  shows "sorted_wrt (\<lambda>a b. key a \<le> key b) (insort_miles key x ys)"
  using assms(2,3)
proof (induction ys)
  case Nil
  show ?case by simp
next
  case (Cons y ys)
  show ?case
  proof (cases "key x \<le> key y")
    case True
    have "key x \<le> key z" if "z \<in> set ys" for z
      using Cons.prems(2) that miles_le_trans [OF True] by auto
    then show ?thesis using True Cons.prems(2) by simp
  next
    case False
    have "key y \<noteq> NanMiles" using Cons.prems(1) by simp
    then have "key y \<le> key x"
      using False assms(1) miles_le_total [of "key x" "key y"] by blast
    then show ?thesis
      using False Cons by (auto simp add: set_insort_miles)
  qed
qed

lemma filter_insort_miles_eq:
  assumes "key x \<noteq> NanMiles"
  shows "filter (\<lambda>y. key y = key x) (insort_miles key x ys) =
           x # filter (\<lambda>y. key y = key x) ys"
proof (induction ys)
  case Nil
  show ?case by simp
next
  case (Cons y ys)
  show ?case
  proof (cases "key x \<le> key y")
    case True
    then show ?thesis by simp
  next
    case False
    then have "key y \<noteq> key x" using miles_le_refl [OF assms] by auto
    then show ?thesis using False Cons.IH by simp
  qed
qed

lemma filter_insort_miles_neq:
  "key x \<noteq> k \<Longrightarrow> filter (\<lambda>y. key y = k) (insort_miles key x ys) =
     filter (\<lambda>y. key y = k) ys"
  by (induction ys) auto

lemma insertion_sort_properties:
  assumes "\<forall>x\<in>set xs. key x \<noteq> NanMiles"
  shows "sorted_wrt (\<lambda>a b. key a \<le> key b) (foldr (insort_miles key) xs []) \<and>
         set (foldr (insort_miles key) xs []) = set xs \<and>
         length (foldr (insort_miles key) xs []) = length xs \<and>
         (\<forall>k. filter (\<lambda>y. key y = k) (foldr (insort_miles key) xs []) =
               filter (\<lambda>y. key y = k) xs)"
  using assms
proof (induction xs)
  case Nil
  show ?case by simp
next
  case (Cons x xs)
  let ?s = "foldr (insort_miles key) xs []"
  have ih: "sorted_wrt (\<lambda>a b. key a \<le> key b) ?s" "set ?s = set xs" "length ?s = length xs"
    "\<And>k. filter (\<lambda>y. key y = k) ?s = filter (\<lambda>y. key y = k) xs"
    using Cons by auto
  have x: "key x \<noteq> NanMiles" using Cons.prems by simp
  have s: "\<forall>y\<in>set ?s. key y \<noteq> NanMiles" using Cons.prems ih(2) by simp
  have "filter (\<lambda>y. key y = k) (insort_miles key x ?s) = filter (\<lambda>y. key y = k) (x # xs)" for k
  proof (cases "key x = k")
    case True
    then show ?thesis
      using x filter_insort_miles_eq [where key = key and x = x and ys = ?s] ih(4) [of k]
      by auto
  next
    case False
    then show ?thesis
      using filter_insort_miles_neq [where key = key and x = x and ys = ?s and k = k]
        ih(4) [of k]
      by auto
  qed
  moreover have "sorted_wrt (\<lambda>a b. key a \<le> key b) (insort_miles key x ?s)"
    using x s ih(1) sorted_insort_miles [where key = key and x = x and ys = ?s] by blast
  ultimately show ?case
    using ih(2,3) by (simp add: set_insort_miles length_insort_miles)
qed

lemma filter_full: "length (filter P xs) = length xs \<Longrightarrow> filter P xs = xs"
proof (induction xs)
  case Nil
  show ?case by simp
next
  case (Cons x xs)
  show ?case
  proof (cases "P x")
    case True
    then show ?thesis using Cons by simp
  next
    case False
    have "length (filter P xs) \<le> length xs" by (rule length_filter_le)
    moreover have "length (filter P xs) = Suc (length xs)" using Cons.prems False by simp
    ultimately have False by linarith
    then show ?thesis ..
  qed
qed

lemma list_sort_Some:
  "\<forall>x\<in>set xs. key x \<noteq> NanMiles \<Longrightarrow> list_sort key xs = Some (foldr (insort_miles key) xs [])"
  by (simp add: list_sort_def list_ex_iff)

subsection \<open>The distances of the evaluators\<close>

lemma fold_ring_step_ge0:
  "Miles 0 \<le> m \<Longrightarrow> Miles 0 \<le> fold (\<lambda>(i, r). ring_step lon lat r) irs m"
proof (induction irs arbitrary: m)
  case Nil
  then show ?case by simp
next
  case (Cons a irs)
  obtain i r where a: "a = (i, r)" by (cases a)
  show ?case using Cons.IH [OF ring_step_ge0 [OF Cons.prems, of lon lat r]] by (simp add: a)
qed

lemma fire_distance_nonneg: "Miles 0 \<le> fst (calculate_distance_to_fire lat lon f)"
proof -
  have "Miles 0 \<le> fold (\<lambda>(i, r). ring_step lon lat r) (enumerate 0 (geometry_rings f)) Infinity"
    by (rule fold_ring_step_ge0) simp
  then show ?thesis
    by (simp add: calculate_distance_to_fire_def calculate_distance_to_fire_try_def
          fire_rings_loop_eq Let_def)
qed

text \<open>The distance of the cone evaluator is NaN exactly for a row without ring geometry
  whose \<open>LAT\<close> and \<open>LON\<close> pass the truthiness test and are not both numbers; every other
  distance is at least 0.\<close>

lemma cone_distance_nan_iff:
  "(fst (calculate_distance_to_cone lat lon c) = NanMiles) =
     (geometry c = None \<and> truthy (LAT c) \<and> truthy (LON c) \<and>
      (LAT c = Some NaN \<or> LON c = Some NaN))"
proof (cases "geometry c")
  case None
  show ?thesis
  proof (cases "truthy (LAT c) \<and> truthy (LON c)")
    case False
    then show ?thesis
      by (auto simp add: calculate_distance_to_cone_def calculate_distance_to_cone_try_def None)
  next
    case True
    then obtain a b where ab: "LAT c = Some a" "LON c = Some b"
      by (cases "LAT c"; cases "LON c") auto
    show ?thesis
      using True
      by (cases a; cases b)
        (simp_all add: calculate_distance_to_cone_def calculate_distance_to_cone_try_def None ab
          haversine_total)
  qed
next
  case (Some rings)
  show ?thesis
  proof (cases rings)
    case Nil
    then show ?thesis
      by (simp add: calculate_distance_to_cone_def calculate_distance_to_cone_try_def Some)
  next
    case (Cons polygon others)
    show ?thesis
    proof (cases "polygon = []")
      case True
      then show ?thesis
        by (simp add: calculate_distance_to_cone_def calculate_distance_to_cone_try_def Some Cons
              vectorized_empty_ring)
    next
      case False
      have g: "geometry c = Some (polygon # others)" by (simp add: Some Cons)
      show ?thesis by (simp add: cone_evaluator_on_ring [OF g False] g)
    qed
  qed
qed

lemma cone_distance_nonneg:
  "fst (calculate_distance_to_cone lat lon c) \<noteq> NanMiles \<Longrightarrow>
     Miles 0 \<le> fst (calculate_distance_to_cone lat lon c)"
proof (cases "geometry c")
  case None
  assume n: "fst (calculate_distance_to_cone lat lon c) \<noteq> NanMiles"
  show ?thesis
  proof (cases "truthy (LAT c) \<and> truthy (LON c)")
    case False
    then show ?thesis
      by (auto simp add: calculate_distance_to_cone_def calculate_distance_to_cone_try_def None)
  next
    case True
    then obtain a b where ab: "LAT c = Some a" "LON c = Some b"
      by (cases "LAT c"; cases "LON c") auto
    show ?thesis
      using True n haversine_distance_nonneg
      by (cases a; cases b)
        (simp_all add: calculate_distance_to_cone_def calculate_distance_to_cone_try_def None ab
          haversine_total)
  qed
next
  case (Some rings)
  show ?thesis
  proof (cases rings)
    case Nil
    then show ?thesis
      by (simp add: calculate_distance_to_cone_def calculate_distance_to_cone_try_def Some)
  next
    case (Cons polygon others)
    show ?thesis
    proof (cases "polygon = []")
      case True
      then show ?thesis
        by (simp add: calculate_distance_to_cone_def calculate_distance_to_cone_try_def Some Cons
              vectorized_empty_ring)
    next
      case False
      have g: "geometry c = Some (polygon # others)" by (simp add: Some Cons)
      show ?thesis
        using Min_vertex_distances_nonneg [OF False, of lon lat]
        by (simp add: cone_evaluator_on_ring [OF g False])
    qed
  qed
qed

subsection \<open>The iteration over the rows\<close>

lemma wildfires_loop_eq:
  "wildfires_loop lat lon radius_miles fires results =
     results @ map (wildfire_entry lat lon)
       (filter (\<lambda>f. retained radius_miles (calculate_distance_to_fire lat lon f)) fires)"
proof (induction fires arbitrary: results)
  case Nil
  show ?case by simp
next
  case (Cons f fires)
  obtain distance inside where d: "calculate_distance_to_fire lat lon f = (distance, inside)"
    by (cases "calculate_distance_to_fire lat lon f")
  have "distance \<noteq> NanMiles"
    using fire_distance_nonneg [of lat lon f] miles_ge_not_nan by (simp add: d)
  then have k: "(\<not> Miles radius_miles < distance) = (distance \<le> Miles radius_miles)"
    by (rule miles_not_less)
  show ?case
    using k by (auto simp add: d Cons.IH retained_def wildfire_entry_def)
qed

text \<open>A storm's position row is one of the rows of the table of detailed points.\<close>

lemma storm_positions_loop_ran:
  "storm_positions_loop details m key = Some row \<Longrightarrow> row \<in> set details \<or> m key = Some row"
proof (induction details arbitrary: m)
  case Nil
  then show ?case by simp
next
  case (Cons r details)
  show ?case
    using Cons.IH [OF Cons.prems [unfolded storm_positions_loop.simps Let_def]]
    by (auto split: option.splits if_splits)
qed

lemma ssnum_of_position_total:
  assumes "\<forall>row\<in>set details. SSNUM row \<noteq> Some NaN"
  shows "\<exists>n. ssnum_of_position (storm_positions_loop details Map.empty key) = Inr n"
proof (cases "storm_positions_loop details Map.empty key")
  case None
  then show ?thesis by (simp add: ssnum_of_position_def)
next
  case (Some row)
  then have "row \<in> set details" using storm_positions_loop_ran [of details Map.empty key row] by simp
  then have "SSNUM row \<noteq> Some NaN" using assms by blast
  then show ?thesis
    by (cases "SSNUM row"; cases "the (SSNUM row)") (auto simp add: ssnum_of_position_def Some)
qed

lemma hurricanes_loop_Cons:
  assumes "fst (calculate_distance_to_cone lat lon c) \<noteq> NanMiles"
    and "\<exists>n. ssnum_of_position (positions (storm_key c)) = Inr n"
  shows "hurricanes_loop lat lon radius_miles positions (c # cones) processed results =
     (if storm_key c \<in> processed then
        hurricanes_loop lat lon radius_miles positions cones processed results
      else if retained radius_miles (calculate_distance_to_cone lat lon c) then
        hurricanes_loop lat lon radius_miles positions cones (insert (storm_key c) processed)
          (results @ [hurricane_entry lat lon c])
      else hurricanes_loop lat lon radius_miles positions cones processed results)"
proof -
  obtain distance inside where d: "calculate_distance_to_cone lat lon c = (distance, inside)"
    by (cases "calculate_distance_to_cone lat lon c")
  have "distance \<noteq> NanMiles" using assms(1) by (simp add: d)
  then have k: "(\<not> Miles radius_miles < distance) = (distance \<le> Miles radius_miles)"
    by (rule miles_not_less)
  obtain n where n: "ssnum_of_position (positions (STORMNAME c, STORMNUM c)) = Inr n"
    using assms(2) by (auto simp add: storm_key_def)
  show ?thesis
    using k by (auto simp add: d n retained_def hurricane_entry_def storm_key_def Let_def)
qed

lemma hurricanes_loop_eq:
  assumes "\<forall>c\<in>set cones. fst (calculate_distance_to_cone lat lon c) \<noteq> NanMiles"
    and "\<forall>key. \<exists>n. ssnum_of_position (positions key) = Inr n"
  shows "hurricanes_loop lat lon radius_miles positions cones processed results =
     results @ map (hurricane_entry lat lon)
       (first_per_storm (filter (\<lambda>c. storm_key c \<notin> processed \<and>
           retained radius_miles (calculate_distance_to_cone lat lon c)) cones))"
  using assms(1)
proof (induction cones arbitrary: processed results)
  case Nil
  show ?case by simp
next
  case (Cons c cones)
  have f: "filter (\<lambda>d. storm_key d \<noteq> storm_key c)
             (filter (\<lambda>c. storm_key c \<notin> processed \<and>
                retained radius_miles (calculate_distance_to_cone lat lon c)) cones) =
           filter (\<lambda>ca. storm_key ca \<notin> insert (storm_key c) processed \<and>
                retained radius_miles (calculate_distance_to_cone lat lon ca)) cones"
    by (auto intro: filter_cong)
  have c: "fst (calculate_distance_to_cone lat lon c) \<noteq> NanMiles" using Cons.prems by simp
  have ih: "hurricanes_loop lat lon radius_miles positions cones p r =
     r @ map (hurricane_entry lat lon)
       (first_per_storm (filter (\<lambda>c. storm_key c \<notin> p \<and>
           retained radius_miles (calculate_distance_to_cone lat lon c)) cones))" for p r
    using Cons.IH Cons.prems by simp
  show ?case
    unfolding hurricanes_loop_Cons [OF c assms(2) [rule_format]] ih
    by (simp add: f del: filter_filter insert_iff)
qed

text \<open>
  Claim C7 says that the ranker emits exactly the entries that are contained or within the
  radius. The hurricane ranker reports a storm only once: of two cone rows of the same
  storm that both contain the query point it emits one entry.
\<close>

theorem hurricane_ranker_reports_a_storm_once:
  "get_hurricanes_near_location 30 (-95) 100
     [\<lparr>STORMNAME = ''ANA'', STORMNUM = 1,
          geometry = Some [[(-100, 25), (-100, 35), (-90, 35), (-90, 25)]],
          LAT = None, LON = None\<rparr>,
      \<lparr>STORMNAME = ''ANA'', STORMNUM = 1,
          geometry = Some [[(-99, 26), (-99, 34), (-91, 34), (-91, 26)]],
          LAT = None, LON = None\<rparr>] [] =
     Some [\<lparr>name = ''ANA'', distance_miles = Miles 0, inside_cone = True\<rparr>] \<and>
   length (filter (\<lambda>c. retained 100 (calculate_distance_to_cone 30 (-95) c))
     [\<lparr>STORMNAME = ''ANA'', STORMNUM = 1,
          geometry = Some [[(-100, 25), (-100, 35), (-90, 35), (-90, 25)]],
          LAT = None, LON = None\<rparr>,
      \<lparr>STORMNAME = ''ANA'', STORMNUM = 1,
          geometry = Some [[(-99, 26), (-99, 34), (-91, 34), (-91, 26)]],
          LAT = None, LON = None\<rparr>]) = 2"
proof -
  have evA: "is_point_in_polygon (-95) 30 [(-100, 25), (-100, 35), (-90, 35), (-90, 25)] = Inr True"
    by (simp add: single_nonempty edge_loop_iff in_bbox_def boundary_flagged_def
          ray_crossings_def on_vertex_def on_edge_def crosses_def next_vertex_def Let_def upt_rec
          power2_eq_square)
  have evB: "is_point_in_polygon (-95) 30 [(-99, 26), (-99, 34), (-91, 34), (-91, 26)] = Inr True"
    by (simp add: single_nonempty edge_loop_iff in_bbox_def boundary_flagged_def
          ray_crossings_def on_vertex_def on_edge_def crosses_def next_vertex_def Let_def upt_rec
          power2_eq_square)
  have cA: "calculate_distance_to_cone 30 (-95)
        \<lparr>STORMNAME = ''ANA'', STORMNUM = 1,
          geometry = Some [[(-100, 25), (-100, 35), (-90, 35), (-90, 25)]],
          LAT = None, LON = None\<rparr> = (Miles 0, True)"
    by (simp add: cone_evaluator_on_ring evA)
  have cB: "calculate_distance_to_cone 30 (-95)
        \<lparr>STORMNAME = ''ANA'', STORMNUM = 1,
          geometry = Some [[(-99, 26), (-99, 34), (-91, 34), (-91, 26)]],
          LAT = None, LON = None\<rparr> = (Miles 0, True)"
    by (simp add: cone_evaluator_on_ring evB)
  show ?thesis
    by (simp add: get_hurricanes_near_location_def list_sort_def ssnum_of_position_def
          retained_def cA cB)
qed

text \<open>The two paths that the next theorem leaves out, at concrete rows. A cone row
  without rings whose \<open>LAT\<close> cell is null gets the distance NaN, passes the radius test
  and puts a NaN key into the sort. A storm whose position row has a null \<open>SSNUM\<close> is
  dropped with its key taken, so a later cone row of the same storm is skipped too.\<close>

lemma null_coordinate_is_kept:
  "calculate_distance_to_cone 30 (-95)
     \<lparr>STORMNAME = ''DON'', STORMNUM = 4, geometry = None,
      LAT = Some NaN, LON = Some (Num (-40))\<rparr> = (NanMiles, False) \<and>
   get_hurricanes_near_location 30 (-95) 100
     [\<lparr>STORMNAME = ''DON'', STORMNUM = 4, geometry = None,
       LAT = Some NaN, LON = Some (Num (-40))\<rparr>] [] = None"
  by (simp add: calculate_distance_to_cone_def calculate_distance_to_cone_try_def
        get_hurricanes_near_location_def list_sort_def ssnum_of_position_def)

lemma null_ssnum_drops_storm:
  "get_hurricanes_near_location 30 (-95) 100
     [\<lparr>STORMNAME = ''ANA'', STORMNUM = 1,
       geometry = Some [[(-100, 25), (-100, 35), (-90, 35), (-90, 25)]],
       LAT = None, LON = None\<rparr>,
      \<lparr>STORMNAME = ''ANA'', STORMNUM = 1,
       geometry = Some [[(-99, 26), (-99, 34), (-91, 34), (-91, 26)]],
       LAT = None, LON = None\<rparr>]
     [\<lparr>STORMNAME = ''ANA'', STORMNUM = 1, TAU = Some (Num 0), SSNUM = Some NaN\<rparr>] = Some []"
proof -
  have evA: "is_point_in_polygon (-95) 30 [(-100, 25), (-100, 35), (-90, 35), (-90, 25)] = Inr True"
    by (simp add: single_nonempty edge_loop_iff in_bbox_def boundary_flagged_def
          ray_crossings_def on_vertex_def on_edge_def crosses_def next_vertex_def Let_def upt_rec
          power2_eq_square)
  have cA: "calculate_distance_to_cone 30 (-95)
        \<lparr>STORMNAME = ''ANA'', STORMNUM = 1,
          geometry = Some [[(-100, 25), (-100, 35), (-90, 35), (-90, 25)]],
          LAT = None, LON = None\<rparr> = (Miles 0, True)"
    by (simp add: cone_evaluator_on_ring evA)
  show ?thesis
    by (simp add: get_hurricanes_near_location_def list_sort_def ssnum_of_position_def cA)
qed

text \<open>
  Claim C7, amended. For every list of fire rows, every query point and every radius, the
  wildfire ranker emits exactly the entries of the rows whose evaluator result is
  contained or has a distance within the radius. For every list of cone rows none of
  which gets a NaN distance from the evaluator, and every list of detailed rows none of
  which has a NaN \<open>SSNUM\<close>, the hurricane ranker emits exactly the entries of those cone
  rows that are, among the rows so retained, the first of their storm key (storm name and
  number). Both outputs are in ascending order of \<open>distance_miles\<close>, every distance is at
  least 0 and a contained entry has distance 0, so contained entries come first; the sort
  is stable: the emitted entries of any one distance appear in their input order.
\<close>

theorem rankers_filter_and_sort_stably:
  assumes "\<forall>c\<in>set cones. fst (calculate_distance_to_cone lat lon c) \<noteq> NanMiles"
    and "\<forall>row\<in>set details. SSNUM row \<noteq> Some NaN"
  shows "\<exists>ws hs.
    get_wildfires_near_location lat lon radius_miles fires = Some ws \<and>
    get_hurricanes_near_location lat lon radius_miles cones details = Some hs \<and>
    sorted_wrt (\<lambda>a b. distance_miles a \<le> distance_miles b) ws \<and>
    (\<forall>d. filter (\<lambda>e. distance_miles e = d) ws =
       filter (\<lambda>e. distance_miles e = d) (map (wildfire_entry lat lon)
         (filter (\<lambda>f. retained radius_miles (calculate_distance_to_fire lat lon f)) fires))) \<and>
    length ws =
      length (filter (\<lambda>f. retained radius_miles (calculate_distance_to_fire lat lon f)) fires) \<and>
    (\<forall>e\<in>set ws.
       Miles 0 \<le> distance_miles e \<and> (inside_perimeter e \<longrightarrow> distance_miles e = Miles 0)) \<and>
    sorted_wrt (\<lambda>a b. distance_miles a \<le> distance_miles b) hs \<and>
    (\<forall>d. filter (\<lambda>e. distance_miles e = d) hs =
       filter (\<lambda>e. distance_miles e = d) (map (hurricane_entry lat lon)
         (first_per_storm
            (filter (\<lambda>c. retained radius_miles (calculate_distance_to_cone lat lon c)) cones)))) \<and>
    length hs =
      length (first_per_storm
            (filter (\<lambda>c. retained radius_miles (calculate_distance_to_cone lat lon c)) cones)) \<and>
    (\<forall>e\<in>set hs.
       Miles 0 \<le> distance_miles e \<and> (inside_cone e \<longrightarrow> distance_miles e = Miles 0))"
proof -
  let ?wk = "map (wildfire_entry lat lon)
       (filter (\<lambda>f. retained radius_miles (calculate_distance_to_fire lat lon f)) fires)"
  let ?sel = "first_per_storm
       (filter (\<lambda>c. retained radius_miles (calculate_distance_to_cone lat lon c)) cones)"
  let ?hk = "map (hurricane_entry lat lon) ?sel"
  let ?ws = "foldr (insort_miles distance_miles) ?wk []"
  let ?hs = "foldr (insort_miles distance_miles) ?hk []"
  have w: "Miles 0 \<le> distance_miles (wildfire_entry lat lon f) \<and>
      (inside_perimeter (wildfire_entry lat lon f) \<longrightarrow>
         distance_miles (wildfire_entry lat lon f) = Miles 0)" for f
    by (simp add: wildfire_entry_def fire_distance_nonneg)
  have sub: "set (first_per_storm cs) \<subseteq> set cs" for cs
  proof (induction cs rule: first_per_storm.induct)
    case 1
    show ?case by simp
  next
    case (2 c cs)
    then show ?case by auto
  qed
  have sel: "c \<in> set cones" if "c \<in> set ?sel" for c
    using that sub [of "filter (\<lambda>c. retained radius_miles (calculate_distance_to_cone lat lon c)) cones"]
    by auto
  have h: "Miles 0 \<le> distance_miles (hurricane_entry lat lon c) \<and>
      (inside_cone (hurricane_entry lat lon c) \<longrightarrow>
         distance_miles (hurricane_entry lat lon c) = Miles 0)" if "c \<in> set ?sel" for c
    using cone_distance_nonneg [of lat lon c] assms(1) sel [OF that]
    by (simp add: hurricane_entry_def)
  have wn: "\<forall>e\<in>set ?wk. distance_miles e \<noteq> NanMiles"
    using w miles_ge_not_nan by auto
  have hn: "\<forall>e\<in>set ?hk. distance_miles e \<noteq> NanMiles"
    using h miles_ge_not_nan by auto
  have wl: "wildfires_loop lat lon radius_miles fires [] = ?wk"
    by (simp add: wildfires_loop_eq)
  have pos: "\<forall>key. \<exists>n. ssnum_of_position (storm_positions_loop details Map.empty key) = Inr n"
    using ssnum_of_position_total [OF assms(2)] by blast
  have hl: "hurricanes_loop lat lon radius_miles (storm_positions_loop details Map.empty) cones {} []
      = ?hk"
    by (simp add: hurricanes_loop_eq [OF assms(1) pos])
  have gw: "get_wildfires_near_location lat lon radius_miles fires = Some ?ws"
    by (simp only: get_wildfires_near_location_def wl list_sort_Some [OF wn])
  have gh: "get_hurricanes_near_location lat lon radius_miles cones details = Some ?hs"
    by (simp only: get_hurricanes_near_location_def Let_def hl list_sort_Some [OF hn])
  note pw = insertion_sort_properties [OF wn]
  note ph = insertion_sort_properties [OF hn]
  have ew: "\<forall>e\<in>set ?ws.
       Miles 0 \<le> distance_miles e \<and> (inside_perimeter e \<longrightarrow> distance_miles e = Miles 0)"
    using pw w by auto
  have eh: "\<forall>e\<in>set ?hs.
       Miles 0 \<le> distance_miles e \<and> (inside_cone e \<longrightarrow> distance_miles e = Miles 0)"
    using ph h by auto
  show ?thesis
    using gw gh pw ph ew eh by (intro exI [of _ ?ws] exI [of _ ?hs]) simp
qed

theorem rankers_filter_and_sort_stably_witness:
  "get_wildfires_near_location 30 (-95) 100
        [\<lparr>poly_IncidentName = ''Alder'',
          geometry_rings = [[(-100, 25), (-100, 35), (-90, 35), (-90, 25)]],
          attr_POOLatitude = None, attr_POOLongitude = None\<rparr>,
         \<lparr>poly_IncidentName = ''Birch'', geometry_rings = [],
          attr_POOLatitude = None, attr_POOLongitude = None\<rparr>,
         \<lparr>poly_IncidentName = ''Cedar'',
          geometry_rings = [[(-99, 26), (-99, 34), (-91, 34), (-91, 26)]],
          attr_POOLatitude = None, attr_POOLongitude = None\<rparr>] =
     Some [\<lparr>name = ''Alder'', distance_miles = Miles 0, inside_perimeter = True\<rparr>,
           \<lparr>name = ''Cedar'', distance_miles = Miles 0, inside_perimeter = True\<rparr>] \<and>
   get_hurricanes_near_location 30 (-95) 100
        [\<lparr>STORMNAME = ''ANA'', STORMNUM = 1,
          geometry = Some [[(-100, 25), (-100, 35), (-90, 35), (-90, 25)]],
          LAT = None, LON = None\<rparr>,
         \<lparr>STORMNAME = ''ANA'', STORMNUM = 1,
          geometry = Some [[(-99, 26), (-99, 34), (-91, 34), (-91, 26)]],
          LAT = None, LON = None\<rparr>,
         \<lparr>STORMNAME = ''BOB'', STORMNUM = 2,
          geometry = Some [[(-99, 26), (-99, 34), (-91, 34), (-91, 26)]],
          LAT = None, LON = None\<rparr>,
         \<lparr>STORMNAME = ''CAL'', STORMNUM = 3, geometry = None, LAT = None, LON = None\<rparr>]
        [\<lparr>STORMNAME = ''ANA'', STORMNUM = 1, TAU = Some (Num 12), SSNUM = Some (Num 2)\<rparr>,
         \<lparr>STORMNAME = ''ANA'', STORMNUM = 1, TAU = Some (Num 0), SSNUM = Some (Num 1)\<rparr>] =
     Some [\<lparr>name = ''ANA'', distance_miles = Miles 0, inside_cone = True\<rparr>,
           \<lparr>name = ''BOB'', distance_miles = Miles 0, inside_cone = True\<rparr>]"
proof -
  let ?fires = "[\<lparr>poly_IncidentName = ''Alder'',
          geometry_rings = [[(-100, 25), (-100, 35), (-90, 35), (-90, 25)]],
          attr_POOLatitude = None, attr_POOLongitude = None\<rparr>,
         \<lparr>poly_IncidentName = ''Birch'', geometry_rings = [],
          attr_POOLatitude = None, attr_POOLongitude = None\<rparr>,
         \<lparr>poly_IncidentName = ''Cedar'',
          geometry_rings = [[(-99, 26), (-99, 34), (-91, 34), (-91, 26)]],
          attr_POOLatitude = None, attr_POOLongitude = None\<rparr>]"
  let ?cones = "[\<lparr>STORMNAME = ''ANA'', STORMNUM = 1,
          geometry = Some [[(-100, 25), (-100, 35), (-90, 35), (-90, 25)]],
          LAT = None, LON = None\<rparr>,
         \<lparr>STORMNAME = ''ANA'', STORMNUM = 1,
          geometry = Some [[(-99, 26), (-99, 34), (-91, 34), (-91, 26)]],
          LAT = None, LON = None\<rparr>,
         \<lparr>STORMNAME = ''BOB'', STORMNUM = 2,
          geometry = Some [[(-99, 26), (-99, 34), (-91, 34), (-91, 26)]],
          LAT = None, LON = None\<rparr>,
         \<lparr>STORMNAME = ''CAL'', STORMNUM = 3, geometry = None, LAT = None, LON = None\<rparr>]"
  let ?details = "[\<lparr>STORMNAME = ''ANA'', STORMNUM = 1, TAU = Some (Num 12), SSNUM = Some (Num 2)\<rparr>,
         \<lparr>STORMNAME = ''ANA'', STORMNUM = 1, TAU = Some (Num 0), SSNUM = Some (Num 1)\<rparr>]"
  have evA: "is_point_in_polygon (-95) 30 [(-100, 25), (-100, 35), (-90, 35), (-90, 25)] = Inr True"
    by (simp add: single_nonempty edge_loop_iff in_bbox_def boundary_flagged_def
          ray_crossings_def on_vertex_def on_edge_def crosses_def next_vertex_def Let_def upt_rec
          power2_eq_square)
  have evB: "is_point_in_polygon (-95) 30 [(-99, 26), (-99, 34), (-91, 34), (-91, 26)] = Inr True"
    by (simp add: single_nonempty edge_loop_iff in_bbox_def boundary_flagged_def
          ray_crossings_def on_vertex_def on_edge_def crosses_def next_vertex_def Let_def upt_rec
          power2_eq_square)
  have fA: "calculate_distance_to_fire 30 (-95)
        \<lparr>poly_IncidentName = ''Alder'',
          geometry_rings = [[(-100, 25), (-100, 35), (-90, 35), (-90, 25)]],
          attr_POOLatitude = None, attr_POOLongitude = None\<rparr> = (Miles 0, True)"
    by (simp add: calculate_distance_to_fire_def calculate_distance_to_fire_try_def
          fire_rings_loop_eq evA)
  have fB: "calculate_distance_to_fire 30 (-95)
        \<lparr>poly_IncidentName = ''Birch'', geometry_rings = [],
          attr_POOLatitude = None, attr_POOLongitude = None\<rparr> = (Infinity, False)"
    by (simp add: calculate_distance_to_fire_def calculate_distance_to_fire_try_def)
  have fC: "calculate_distance_to_fire 30 (-95)
        \<lparr>poly_IncidentName = ''Cedar'',
          geometry_rings = [[(-99, 26), (-99, 34), (-91, 34), (-91, 26)]],
          attr_POOLatitude = None, attr_POOLongitude = None\<rparr> = (Miles 0, True)"
    by (simp add: calculate_distance_to_fire_def calculate_distance_to_fire_try_def
          fire_rings_loop_eq evB)
  have cA: "calculate_distance_to_cone 30 (-95)
        \<lparr>STORMNAME = ''ANA'', STORMNUM = 1,
          geometry = Some [[(-100, 25), (-100, 35), (-90, 35), (-90, 25)]],
          LAT = None, LON = None\<rparr> = (Miles 0, True)"
    by (simp add: cone_evaluator_on_ring evA)
  have cB: "calculate_distance_to_cone 30 (-95)
        \<lparr>STORMNAME = ''ANA'', STORMNUM = 1,
          geometry = Some [[(-99, 26), (-99, 34), (-91, 34), (-91, 26)]],
          LAT = None, LON = None\<rparr> = (Miles 0, True)"
    by (simp add: cone_evaluator_on_ring evB)
  have cC: "calculate_distance_to_cone 30 (-95)
        \<lparr>STORMNAME = ''BOB'', STORMNUM = 2,
          geometry = Some [[(-99, 26), (-99, 34), (-91, 34), (-91, 26)]],
          LAT = None, LON = None\<rparr> = (Miles 0, True)"
    by (simp add: cone_evaluator_on_ring evB)
  have cD: "calculate_distance_to_cone 30 (-95)
        \<lparr>STORMNAME = ''CAL'', STORMNUM = 3, geometry = None, LAT = None, LON = None\<rparr> = (Infinity, False)"
    by (simp add: calculate_distance_to_cone_def calculate_distance_to_cone_try_def)
  have h1: "\<forall>c\<in>set ?cones. fst (calculate_distance_to_cone 30 (-95) c) \<noteq> NanMiles"
    by (simp add: cA cB cC cD)
  have h2: "\<forall>row\<in>set ?details. SSNUM row \<noteq> Some NaN"
    by simp
  obtain ws hs where ws: "get_wildfires_near_location 30 (-95) 100 ?fires = Some ws"
    and hs: "get_hurricanes_near_location 30 (-95) 100 ?cones ?details = Some hs"
    and fw: "\<forall>d. filter (\<lambda>e. distance_miles e = d) ws =
       filter (\<lambda>e. distance_miles e = d) (map (wildfire_entry 30 (-95))
         (filter (\<lambda>f. retained 100 (calculate_distance_to_fire 30 (-95) f)) ?fires))"
    and lw: "length ws =
       length (filter (\<lambda>f. retained 100 (calculate_distance_to_fire 30 (-95) f)) ?fires)"
    and fh: "\<forall>d. filter (\<lambda>e. distance_miles e = d) hs =
       filter (\<lambda>e. distance_miles e = d) (map (hurricane_entry 30 (-95))
         (first_per_storm
            (filter (\<lambda>c. retained 100 (calculate_distance_to_cone 30 (-95) c)) ?cones)))"
    and lh: "length hs =
       length (first_per_storm
            (filter (\<lambda>c. retained 100 (calculate_distance_to_cone 30 (-95) c)) ?cones))"
    using rankers_filter_and_sort_stably
      [where lat = 30 and lon = "-95" and radius_miles = 100 and fires = ?fires
         and cones = ?cones and details = ?details, OF h1 h2]
    by blast
  have kw: "map (wildfire_entry 30 (-95))
         (filter (\<lambda>f. retained 100 (calculate_distance_to_fire 30 (-95) f)) ?fires) =
     [\<lparr>name = ''Alder'', distance_miles = Miles 0, inside_perimeter = True\<rparr>,
      \<lparr>name = ''Cedar'', distance_miles = Miles 0, inside_perimeter = True\<rparr>]"
    by (simp add: retained_def wildfire_entry_def fA fB fC)
  have kh: "map (hurricane_entry 30 (-95))
         (first_per_storm
            (filter (\<lambda>c. retained 100 (calculate_distance_to_cone 30 (-95) c)) ?cones)) =
     [\<lparr>name = ''ANA'', distance_miles = Miles 0, inside_cone = True\<rparr>,
      \<lparr>name = ''BOB'', distance_miles = Miles 0, inside_cone = True\<rparr>]"
    by (simp add: retained_def hurricane_entry_def storm_key_def cA cB cC cD)
  have zw: "filter (\<lambda>e. distance_miles e = Miles 0) ws =
     [\<lparr>name = ''Alder'', distance_miles = Miles 0, inside_perimeter = True\<rparr>,
      \<lparr>name = ''Cedar'', distance_miles = Miles 0, inside_perimeter = True\<rparr>]"
    using fw [rule_format, of "Miles 0"] unfolding kw by simp
  have zh: "filter (\<lambda>e. distance_miles e = Miles 0) hs =
     [\<lparr>name = ''ANA'', distance_miles = Miles 0, inside_cone = True\<rparr>,
      \<lparr>name = ''BOB'', distance_miles = Miles 0, inside_cone = True\<rparr>]"
    using fh [rule_format, of "Miles 0"] unfolding kh by simp
  have "length ws = 2" using lw kw by (metis length_map length_Cons list.size(3) numeral_2_eq_2)
  then have "length (filter (\<lambda>e. distance_miles e = Miles 0) ws) = length ws"
    by (simp add: zw)
  then have w: "filter (\<lambda>e. distance_miles e = Miles 0) ws = ws" by (rule filter_full)
  have "length hs = 2" using lh kh by (metis length_map length_Cons list.size(3) numeral_2_eq_2)
  then have "length (filter (\<lambda>e. distance_miles e = Miles 0) hs) = length hs"
    by (simp add: zh)
  then have h: "filter (\<lambda>e. distance_miles e = Miles 0) hs = hs" by (rule filter_full)
  show ?thesis using ws hs zw zh w h by simp
qed

end
